theory Spec2Isabelle
  imports Main
begin

section \<open>Python values, strings and exceptions\<close>

text \<open>
  A cell of the result table (a pandas row is a \<open>Series\<close>) holds a string or a value of
  another type: \<open>None\<close>, the float \<open>nan\<close> pandas uses for a missing entry, or any other
  object, kept as what \<open>str()\<close> prints for it. Characters are code points below 256.
\<close>

datatype pyval = PStr string | PNone | PNaN | PObj string

fun isinstance_str :: "pyval \<Rightarrow> bool" where
  "isinstance_str (PStr s) = True"
| "isinstance_str v = False"

text \<open>What an f-string inserts for \<open>{v}\<close>: \<open>str(v)\<close>.\<close>

fun py_str :: "pyval \<Rightarrow> string" where
  "py_str (PStr s) = s"
| "py_str PNone = ''None''"
| "py_str PNaN = ''nan''"
| "py_str (PObj s) = s"

text \<open>\<open>str.isspace\<close> on the code points below 256, and \<open>str.strip()\<close>.\<close>

definition isspace :: "char \<Rightarrow> bool" where
  "isspace c = (of_char c \<in> set [9, 10, 11, 12, 13, 28, 29, 30, 31, 32, 133, 160 :: nat])"

definition strip :: "string \<Rightarrow> string" where
  "strip s = rev (dropWhile isspace (rev (dropWhile isspace s)))"

text \<open>Truth value of an optional string: \<open>None\<close> and \<open>""\<close> are false.\<close>

fun truthy :: "string option \<Rightarrow> bool" where
  "truthy None = False"
| "truthy (Some s) = (s \<noteq> [])"

datatype oserror =
  FileNotFoundError | NotADirectoryError | IsADirectoryError | FileExistsError
  | OtherOSError string

text \<open>
  \<open>KeyboardInterrupt\<close> and \<open>SystemExit\<close> derive from \<open>BaseException\<close> only, so
  \<open>except Exception\<close> lets them pass; everything else here derives from \<open>Exception\<close>.
\<close>

datatype exn =
  OSError oserror | KeyError string | EOFError | OtherError string
  | KeyboardInterrupt | SystemExit int

fun is_Exception :: "exn \<Rightarrow> bool" where
  "is_Exception KeyboardInterrupt = False"
| "is_Exception (SystemExit n) = False"
| "is_Exception e = True"

fun is_OSError :: "exn \<Rightarrow> bool" where
  "is_OSError (OSError e) = True"
| "is_OSError e = False"

section \<open>Paths and the file system\<close>

text \<open>
  A path is the tuple of parts \<open>pathlib\<close> keeps (\<open>Path("/a/b").parts = ("/", "a", "b")\<close>):
  repeated slashes and single dots are dropped, \<open>..\<close> is kept. The empty tuple is the
  current directory.
\<close>

type_synonym path = "string list"

fun split_slash :: "string \<Rightarrow> string list" where
  "split_slash [] = [[]]"
| "split_slash (c # cs) =
     (if c = CHR ''/'' then [] # split_slash cs
      else (case split_slash cs of [] \<Rightarrow> [[c]] | x # xs \<Rightarrow> (c # x) # xs))"

definition Path :: "string \<Rightarrow> path" where
  "Path s = (if take 1 s = ''/'' then [''/''] else [])
            @ filter (\<lambda>x. x \<noteq> [] \<and> x \<noteq> ''.'') (split_slash s)"

text \<open>\<open>p / s\<close>: an absolute right operand replaces the left one.\<close>

definition truediv :: "path \<Rightarrow> string \<Rightarrow> path" where
  "truediv p s = (if take 1 s = ''/'' then Path s else p @ Path s)"

definition parent :: "path \<Rightarrow> path" where
  "parent p = (if p = [''/''] then p else butlast p)"

datatype node = Dir | File string

type_synonym filesystem = "path \<rightharpoonup> node"

text \<open>The root and the current directory are always there.\<close>

definition node_at :: "filesystem \<Rightarrow> path \<Rightarrow> node option" where
  "node_at fs p = (if p = [] \<or> p = [''/''] then Some Dir else fs p)"

definition exists :: "filesystem \<Rightarrow> path \<Rightarrow> bool" where
  "exists fs p = (node_at fs p \<noteq> None)"

definition is_dir :: "filesystem \<Rightarrow> path \<Rightarrow> bool" where
  "is_dir fs p = (node_at fs p = Some Dir)"

text \<open>
  \<open>Path.mkdir(parents=True, exist_ok=True)\<close>: an existing directory is accepted, a missing
  parent is created first, a regular file on the way is an \<open>OSError\<close>.
\<close>

function mkdir :: "filesystem \<Rightarrow> path \<Rightarrow> oserror + filesystem" where
  "mkdir fs p =
     (case node_at fs p of
        Some Dir \<Rightarrow> Inr fs
      | Some (File c) \<Rightarrow> Inl FileExistsError
      | None \<Rightarrow>
          (case node_at fs (parent p) of
             Some Dir \<Rightarrow> Inr (fs(p \<mapsto> Dir))
           | Some (File c) \<Rightarrow> Inl NotADirectoryError
           | None \<Rightarrow>
               (case mkdir fs (parent p) of
                  Inl e \<Rightarrow> Inl e
                | Inr fs' \<Rightarrow> Inr (fs'(p \<mapsto> Dir)))))"
  by pat_completeness auto
termination
proof (relation "measure (\<lambda>(fs, p). length p)")
  show "wf (measure (\<lambda>(fs, p). length p))" by simp
next
  fix fs :: filesystem and p :: path
  assume "node_at fs (parent p) = None"
  then have "p \<noteq> []" and "p \<noteq> [''/'']"
    by (auto simp: node_at_def parent_def)
  then show "((fs, parent p), (fs, p)) \<in> measure (\<lambda>(fs, p). length p)"
    by (simp add: parent_def)
qed

declare mkdir.simps [simp del]

text \<open>
  \<open>open(p, 'w')\<close> followed by \<open>write\<close>: fails on a directory and where the parent is not
  an existing directory; otherwise the file holds exactly the text written, whatever it
  held before.
\<close>

definition open_write :: "filesystem \<Rightarrow> path \<Rightarrow> string \<Rightarrow> oserror + filesystem" where
  "open_write fs p text =
     (if node_at fs p = Some Dir then Inl IsADirectoryError
      else (case node_at fs (parent p) of
              None \<Rightarrow> Inl FileNotFoundError
            | Some (File c) \<Rightarrow> Inl NotADirectoryError
            | Some Dir \<Rightarrow> Inr (fs(p \<mapsto> File text))))"

section \<open>Configuration, result table, collaborators, observable events\<close>

text \<open>The namespace \<open>parser.parse_args()\<close> returns: flags over environment over defaults.\<close>

record args =
  zotero_api_key :: "string option"
  zotero_library_id :: "string option"
  zotero_collection_key :: "string option"
  zotero_library_type :: string
  obsidian_directory :: "string option"
  dry_run :: bool
  verbose :: bool

text \<open>
  A row of the table, in column order, and the table as \<open>iterrows()\<close> yields it: pairs of
  index label and row.
\<close>

type_synonym paper = "(string \<times> pyval) list"

type_synonym dataframe = "(int \<times> paper) list"

text \<open>\<open>DataFrame.empty\<close>: no rows, or no columns.\<close>

fun df_empty :: "dataframe \<Rightarrow> bool" where
  "df_empty [] = True"
| "df_empty ((i, row) # rest) = (row = [])"

text \<open>
  The collaborators are outside the repository: what each call does in this run is given.
  \<open>sanitize_filename\<close> is the function of \<open>pathvalidate\<close>; the three others stand for
  \<open>ZoteroClient(...).init()\<close>, \<open>OpenAlexClient().init()\<close> and the two calls on
  \<open>PaperLibrary\<close>.
\<close>

record extern =
  sanitize_filename :: "pyval \<Rightarrow> exn + string"
  zotero_client_init :: "string option \<Rightarrow> string option \<Rightarrow> string \<Rightarrow> exn option"
  openalex_client_init :: "exn option"
  sync_zotero_collection :: "string option \<Rightarrow> exn + string"
  get_library_df :: "string option \<Rightarrow> exn + dataframe"

datatype level = INFO | WARNING | ERROR

datatype prompt = AskApiKey | AskLibraryId | AskCollectionKey | AskObsidianDirectory

text \<open>One constructor for each logging call of the source, with the values it prints.\<close>

datatype msg =
  InvalidLibraryType string
  | CreatedDirectory string
  | CannotCreateDirectory string oserror
  | ExistsNotDirectory string
  | ApiKeyRequired
  | LibraryIdRequired
  | CollectionKeyRequired
  | SyncResult string
  | NoPapersFound
  | FoundPapers nat
  | SavedFulltext pyval path
  | FailedToSave pyval exn
  | WouldProcess pyval
  | NoFulltextFound "int + pyval"
  | SuccessfullyProcessed nat
  | ErrorProcessing exn
  | InitializingZotero
  | InitializingOpenAlex
  | OperationCancelled
  | UnexpectedError exn

datatype event =
  Log level msg
  | Prompted prompt
  | FsExists path
  | FsIsDir path
  | FsMkdir path
  | FsWrite path string
  | CallSanitize pyval
  | CallZoteroInit
  | CallOpenAlexInit
  | CallSync
  | CallGetDf
  | PrintTraceback

text \<open>
  What a run can touch: the file system, what the console will answer to each prompt in
  turn (a line, or the exception the read ends with), and the events so far.
\<close>

record world =
  fs :: filesystem
  console :: "(exn + string) list"
  trace :: "event list"

type_synonym 'a result = "(exn + 'a) \<times> world"

definition emit :: "event \<Rightarrow> world \<Rightarrow> world" where
  "emit e w = w\<lparr>trace := trace w @ [e]\<rparr>"

definition logger :: "level \<Rightarrow> msg \<Rightarrow> world \<Rightarrow> world" where
  "logger l m w = emit (Log l m) w"

text \<open>Sequencing: an exception ends the rest of the block.\<close>

definition bind :: "'a result \<Rightarrow> ('a \<Rightarrow> world \<Rightarrow> 'b result) \<Rightarrow> 'b result" where
  "bind r f = (case r of (Inl e, w) \<Rightarrow> (Inl e, w) | (Inr x, w) \<Rightarrow> f x w)"

text \<open>\<open>sys.exit(n)\<close> raises \<open>SystemExit(n)\<close>.\<close>

definition sys_exit :: "int \<Rightarrow> world \<Rightarrow> 'a result" where
  "sys_exit n w = (Inl (SystemExit n), w)"

text \<open>\<open>getpass\<close> and \<open>input\<close>: the next answer of the console, \<open>EOFError\<close> when it is closed.\<close>

definition read_line :: "prompt \<Rightarrow> world \<Rightarrow> string result" where
  "read_line q w =
     (case console w of
        [] \<Rightarrow> (Inl EOFError, emit (Prompted q) w)
      | r # rs \<Rightarrow> (r, emit (Prompted q) (w\<lparr>console := rs\<rparr>)))"

section \<open>The program\<close>

definition validate_args :: "args \<Rightarrow> world \<Rightarrow> unit result" where
  "validate_args a w =
     (if zotero_library_type a \<notin> set [''user'', ''group''] then
        sys_exit 1 (logger ERROR (InvalidLibraryType (zotero_library_type a)) w)
      else if truthy (obsidian_directory a) then
        (let d = the (obsidian_directory a);
             obsidian_path = Path d;
             w1 = emit (FsExists obsidian_path) w
         in if \<not> exists (fs w1) obsidian_path then
              (case mkdir (fs w1) obsidian_path of
                 Inr fs' \<Rightarrow>
                   (Inr (), logger INFO (CreatedDirectory d)
                      (emit (FsMkdir obsidian_path) (w1\<lparr>fs := fs'\<rparr>)))
               | Inl e \<Rightarrow>
                   sys_exit 1 (logger ERROR (CannotCreateDirectory d e)
                      (emit (FsMkdir obsidian_path) w1)))
            else
              (let w2 = emit (FsIsDir obsidian_path) w1
               in if \<not> is_dir (fs w2) obsidian_path then
                    sys_exit 1 (logger ERROR (ExistsNotDirectory d) w2)
                  else (Inr (), w2)))
      else (Inr (), w))"

definition get_interactive_input :: "args \<Rightarrow> world \<Rightarrow> args result" where
  "get_interactive_input a0 w0 =
     bind (if \<not> truthy (zotero_api_key a0) then
             bind (read_line AskApiKey w0) (\<lambda>k w.
               if strip k = [] then sys_exit 1 (logger ERROR ApiKeyRequired w)
               else (Inr (a0\<lparr>zotero_api_key := Some k\<rparr>), w))
           else (Inr a0, w0)) (\<lambda>a1 w1.
     bind (if \<not> truthy (zotero_library_id a1) then
             bind (read_line AskLibraryId w1) (\<lambda>k w.
               if strip k = [] then sys_exit 1 (logger ERROR LibraryIdRequired w)
               else (Inr (a1\<lparr>zotero_library_id := Some (strip k)\<rparr>), w))
           else (Inr a1, w1)) (\<lambda>a2 w2.
     bind (if \<not> truthy (zotero_collection_key a2) then
             bind (read_line AskCollectionKey w2) (\<lambda>k w.
               if strip k = [] then sys_exit 1 (logger ERROR CollectionKeyRequired w)
               else (Inr (a2\<lparr>zotero_collection_key := Some (strip k)\<rparr>), w))
           else (Inr a2, w2)) (\<lambda>a3 w3.
     if \<not> truthy (obsidian_directory a3) then
       bind (read_line AskObsidianDirectory w3) (\<lambda>k w.
         (Inr (a3\<lparr>obsidian_directory :=
                   (if strip k \<noteq> [] then Some (strip k) else None)\<rparr>), w))
     else (Inr a3, w3))))"

text \<open>
  The body of the \<open>for\<close> loop of \<open>process_papers\<close> for one row, from the processed count so
  far to the new one. An \<open>OSError\<close> inside the inner \<open>try\<close> is logged and the loop goes
  on; \<open>paper['title']\<close> on a table without that column is a \<open>KeyError\<close>, raised before
  the inner \<open>try\<close>.
\<close>

definition save_paper :: "extern \<Rightarrow> string \<Rightarrow> pyval \<Rightarrow> string \<Rightarrow> nat \<Rightarrow> world \<Rightarrow> nat result" where
  "save_paper ext d title markdown_text processed_count w =
     (let w1 = emit (CallSanitize title) w;
          failed = (\<lambda>e w'. if is_OSError e
                     then (Inr processed_count, logger ERROR (FailedToSave title e) w')
                     else (Inl e, w'))
      in case sanitize_filename ext title of
           Inl e \<Rightarrow> failed e w1
         | Inr paper_title_sanitized \<Rightarrow>
             (let file_path = truediv (Path d) (paper_title_sanitized @ ''.md'');
                  w2 = emit (FsWrite file_path markdown_text) w1
              in case open_write (fs w2) file_path markdown_text of
                   Inl e \<Rightarrow> failed (OSError e) w2
                 | Inr fs' \<Rightarrow>
                     (Inr (processed_count + 1),
                      logger INFO (SavedFulltext title file_path) (w2\<lparr>fs := fs'\<rparr>))))"

definition no_fulltext :: "int \<Rightarrow> paper \<Rightarrow> nat \<Rightarrow> world \<Rightarrow> nat result" where
  "no_fulltext paper_index paper processed_count w =
     (Inr processed_count,
      logger WARNING
        (NoFulltextFound (case map_of paper ''title'' of
                            Some t \<Rightarrow> Inr t | None \<Rightarrow> Inl paper_index)) w)"

definition process_paper ::
  "extern \<Rightarrow> string option \<Rightarrow> int \<times> paper \<Rightarrow> nat \<Rightarrow> world \<Rightarrow> nat result" where
  "process_paper ext obsidian_dir row processed_count w =
     (case row of (paper_index, paper) \<Rightarrow>
        (case map_of paper ''fulltext'' of
           Some (PStr fulltext) \<Rightarrow>
             if strip fulltext \<noteq> [] then
               (case map_of paper ''title'' of
                  None \<Rightarrow> (Inl (KeyError ''title''), w)
                | Some title \<Rightarrow>
                    (let markdown_text =
                           ''# '' @ py_str title @ [CHR 0x0A, CHR 0x0A] @ fulltext
                     in if truthy obsidian_dir then
                          save_paper ext (the obsidian_dir) title markdown_text
                            processed_count w
                        else (Inr (processed_count + 1),
                              logger INFO (WouldProcess title) w)))
             else no_fulltext paper_index paper processed_count w
         | _ \<Rightarrow> no_fulltext paper_index paper processed_count w))"

fun process_rows ::
  "extern \<Rightarrow> string option \<Rightarrow> dataframe \<Rightarrow> nat \<Rightarrow> world \<Rightarrow> nat result" where
  "process_rows ext obsidian_dir [] processed_count w = (Inr processed_count, w)"
| "process_rows ext obsidian_dir (row # rest) processed_count w =
     (case process_paper ext obsidian_dir row processed_count w of
        (Inl e, w') \<Rightarrow> (Inl e, w')
      | (Inr n, w') \<Rightarrow> process_rows ext obsidian_dir rest n w')"

text \<open>The block under \<open>try\<close> in \<open>process_papers\<close>, then the function with its handler.\<close>

definition process_papers_try ::
  "extern \<Rightarrow> string option \<Rightarrow> string option \<Rightarrow> world \<Rightarrow> unit result" where
  "process_papers_try ext collection_key obsidian_dir w =
     (case sync_zotero_collection ext collection_key of
        Inl e \<Rightarrow> (Inl e, emit CallSync w)
      | Inr res \<Rightarrow>
          (let w1 = emit CallGetDf (logger INFO (SyncResult res) (emit CallSync w))
           in case get_library_df ext collection_key of
                Inl e \<Rightarrow> (Inl e, w1)
              | Inr paper_library_df \<Rightarrow>
                  if df_empty paper_library_df then
                    (Inr (), logger WARNING NoPapersFound w1)
                  else
                    bind (process_rows ext obsidian_dir paper_library_df 0
                            (logger INFO (FoundPapers (length paper_library_df)) w1))
                      (\<lambda>processed_count w2.
                         (Inr (), logger INFO (SuccessfullyProcessed processed_count) w2))))"

definition process_papers ::
  "extern \<Rightarrow> string option \<Rightarrow> string option \<Rightarrow> world \<Rightarrow> unit result" where
  "process_papers ext collection_key obsidian_dir w =
     (case process_papers_try ext collection_key obsidian_dir w of
        (Inl e, w') \<Rightarrow>
          if is_Exception e then sys_exit 1 (logger ERROR (ErrorProcessing e) w')
          else (Inl e, w')
      | (Inr u, w') \<Rightarrow> (Inr u, w'))"

text \<open>
  \<open>main\<close> after \<open>parse_args\<close>: validation and prompting stand before the \<open>try\<close>, the
  clients and the export inside it.
\<close>

definition main_try :: "args \<Rightarrow> extern \<Rightarrow> world \<Rightarrow> unit result" where
  "main_try a ext w =
     (let w1 = emit CallZoteroInit (logger INFO InitializingZotero w)
      in case zotero_client_init ext (zotero_api_key a) (zotero_library_id a)
                (zotero_library_type a) of
           Some e \<Rightarrow> (Inl e, w1)
         | None \<Rightarrow>
             (let w2 = emit CallOpenAlexInit (logger INFO InitializingOpenAlex w1)
              in case openalex_client_init ext of
                   Some e \<Rightarrow> (Inl e, w2)
                 | None \<Rightarrow>
                     (let obsidian_dir =
                            (if dry_run a then None else obsidian_directory a)
                      in process_papers ext (zotero_collection_key a) obsidian_dir w2)))"

definition main :: "args \<Rightarrow> extern \<Rightarrow> world \<Rightarrow> unit result" where
  "main a0 ext w0 =
     bind (validate_args a0 w0) (\<lambda>u w1.
     bind (get_interactive_input a0 w1) (\<lambda>a w2.
       (case main_try a ext w2 of
          (Inl KeyboardInterrupt, w3) \<Rightarrow> sys_exit 0 (logger INFO OperationCancelled w3)
        | (Inl e, w3) \<Rightarrow>
            if is_Exception e then
              (let w4 = logger ERROR (UnexpectedError e) w3
               in sys_exit 1 (if verbose a then emit PrintTraceback w4 else w4))
            else (Inl e, w3)
        | (Inr u', w3) \<Rightarrow> (Inr u', w3))))"

text \<open>
  How the process ends: status 0 when \<open>main\<close> returns, the status of a \<open>SystemExit\<close>, or
  an exception nothing caught (the interpreter prints it and the status is not 0).
\<close>

datatype outcome = Exit int | Uncaught exn

fun outcome_of :: "exn + unit \<Rightarrow> outcome" where
  "outcome_of (Inr u) = Exit 0"
| "outcome_of (Inl (SystemExit n)) = Exit n"
| "outcome_of (Inl e) = Uncaught e"

definition run :: "args \<Rightarrow> extern \<Rightarrow> world \<Rightarrow> outcome \<times> world" where
  "run a ext w = (case main a ext w of (r, w') \<Rightarrow> (outcome_of r, w'))"

section \<open>Notions used in the properties\<close>

text \<open>
  A record has usable full text when the field is there, is a string, and is not blank
  once trimmed.
\<close>

definition usable_fulltext :: "paper \<Rightarrow> bool" where
  "usable_fulltext paper =
     (case map_of paper ''fulltext'' of
        Some v \<Rightarrow> isinstance_str v \<and> strip (py_str v) \<noteq> []
      | None \<Rightarrow> False)"

text \<open>The document of a record: a header line with the title, a blank line, the full text.\<close>

definition document :: "pyval \<Rightarrow> string \<Rightarrow> string" where
  "document title fulltext = ''# '' @ py_str title @ [CHR 0x0A, CHR 0x0A] @ fulltext"

text \<open>The file a record is saved to under directory \<open>d\<close>, given its sanitized title.\<close>

definition target :: "string \<Rightarrow> string \<Rightarrow> path" where
  "target d name = truediv (Path d) (name @ ''.md'')"

text \<open>A file system is a tree: whatever exists lies in a directory.\<close>

definition wf_fs :: "filesystem \<Rightarrow> bool" where
  "wf_fs f = (\<forall>p. node_at f p \<noteq> None \<longrightarrow> node_at f (parent p) = Some Dir)"

text \<open>Two file systems with the same directories.\<close>

definition same_dirs :: "filesystem \<Rightarrow> filesystem \<Rightarrow> bool" where
  "same_dirs f g = (\<forall>p. (node_at f p = Some Dir) = (node_at g p = Some Dir))"

text \<open>
  An event with the kind of \<open>OSError\<close> of a failed save left out: which error a failed
  \<open>open\<close> reports can depend on what an earlier run left behind, that it failed cannot.
\<close>

fun forget_errno :: "event \<Rightarrow> event" where
  "forget_errno (Log ERROR (FailedToSave t e)) =
     Log ERROR (FailedToSave t (OSError (OtherOSError [])))"
| "forget_errno e = e"

text \<open>
  The run from \<open>w\<close> to \<open>w'\<close> and the run from \<open>v\<close> to \<open>v'\<close> added the same events, in the
  same order, up to the kind of error of a failed save.
\<close>

definition same_events :: "world \<Rightarrow> world \<Rightarrow> world \<Rightarrow> world \<Rightarrow> bool" where
  "same_events w w' v v' =
     (\<exists>ew ev. trace w' = trace w @ ew \<and> trace v' = trace v @ ev \<and>
              map forget_errno ew = map forget_errno ev)"

text \<open>
  Two runs from \<open>w\<close> and \<open>v\<close> that end in \<open>w'\<close> and \<open>v'\<close> have moved in step: every path
  holds the same in both at the end, or was touched by neither; directories still agree;
  and both added the same events.
\<close>

definition in_step :: "world \<Rightarrow> world \<Rightarrow> world \<Rightarrow> world \<Rightarrow> bool" where
  "in_step w v w' v' =
     (same_dirs (fs w') (fs v') \<and>
      (\<forall>p. fs w' p = fs v' p \<or> (fs w' p = fs w p \<and> fs v' p = fs v p)) \<and>
      same_events w w' v v')"


fun is_write :: "event \<Rightarrow> bool" where
  "is_write (FsWrite p c) = True"
| "is_write e = False"

fun is_fs_check :: "event \<Rightarrow> bool" where
  "is_fs_check (FsExists p) = True"
| "is_fs_check (FsIsDir p) = True"
| "is_fs_check (FsMkdir p) = True"
| "is_fs_check e = False"

fun is_warning :: "event \<Rightarrow> bool" where
  "is_warning (Log WARNING m) = True"
| "is_warning e = False"


text \<open>
  From \<open>w\<close> to \<open>w'\<close> the file system was left alone: it is the same, and the events added
  hold no write, no existence or directory check and no \<open>mkdir\<close>.
\<close>

definition untouched :: "world \<Rightarrow> world \<Rightarrow> bool" where
  "untouched w w' =
     (fs w' = fs w \<and>
      (\<exists>evs. trace w' = trace w @ evs \<and> \<not> list_ex is_write evs \<and>
             \<not> list_ex is_fs_check evs))"

text \<open>
  From \<open>w\<close> to \<open>w'\<close> nothing looked for a path or tried to create one: the events added
  hold no existence check, no directory check and no \<open>mkdir\<close>.
\<close>

definition no_checks :: "world \<Rightarrow> world \<Rightarrow> bool" where
  "no_checks w w' = (\<exists>evs. trace w' = trace w @ evs \<and> \<not> list_ex is_fs_check evs)"

fun is_error :: "event \<Rightarrow> bool" where
  "is_error (Log ERROR m) = True"
| "is_error e = False"

text \<open>The error a record logs when its write finds no directory to write to.\<close>

definition no_directory_error :: "int \<times> paper \<Rightarrow> event" where
  "no_directory_error row =
     Log ERROR (FailedToSave (the (map_of (snd row) ''title'')) (OSError FileNotFoundError))"

text \<open>Concrete inputs: a configuration, collaborators that succeed, two records.\<close>

definition paper_a :: paper where
  "paper_a = [(''title'', PStr ''Paper A''), (''fulltext'', PStr ''Body A'')]"

definition paper_b :: paper where
  "paper_b = [(''title'', PStr ''Paper B''), (''fulltext'', PStr [])]"

definition drop_slashes :: "pyval \<Rightarrow> exn + string" where
  "drop_slashes v = Inr (filter (\<lambda>c. c \<noteq> CHR ''/'') (py_str v))"

definition sample_extern :: "dataframe \<Rightarrow> extern" where
  "sample_extern df =
     \<lparr>sanitize_filename = drop_slashes,
      zotero_client_init = (\<lambda>k i t. None),
      openalex_client_init = None,
      sync_zotero_collection = (\<lambda>c. Inr ''synced''),
      get_library_df = (\<lambda>c. Inr df)\<rparr>"

definition sample_args :: "string option \<Rightarrow> bool \<Rightarrow> args" where
  "sample_args dir dry =
     \<lparr>zotero_api_key = Some ''key'', zotero_library_id = Some ''42'',
      zotero_collection_key = Some ''COLL'', zotero_library_type = ''user'',
      obsidian_directory = dir, dry_run = dry, verbose = False\<rparr>"

definition sample_world :: "filesystem \<Rightarrow> (exn + string) list \<Rightarrow> world" where
  "sample_world f answers = \<lparr>fs = f, console = answers, trace = []\<rparr>"

section \<open>Basic facts\<close>

lemma emit_sel [simp]:
  "fs (emit e w) = fs w" "console (emit e w) = console w" "trace (emit e w) = trace w @ [e]"
  by (simp_all add: emit_def)

lemma logger_sel [simp]:
  "fs (logger l m w) = fs w" "console (logger l m w) = console w"
  "trace (logger l m w) = trace w @ [Log l m]"
  by (simp_all add: logger_def)

lemma bind_simps [simp]:
  "bind (Inl e, w) f = (Inl e, w)" "bind (Inr x, w) f = f x w"
  by (simp_all add: bind_def)

lemma sys_exit_simp [simp]: "sys_exit n w = (Inl (SystemExit n), w)"
  by (simp add: sys_exit_def)

lemma Path_Nil [simp]: "Path [] = []"
  by (simp add: Path_def)

lemma node_at_here [simp]: "node_at f [] = Some Dir" "node_at f [''/''] = Some Dir"
  by (simp_all add: node_at_def)

text \<open>The definitions a concrete run is evaluated with.\<close>

lemmas run_defs = run_def main_def bind_def validate_args_def get_interactive_input_def
  main_try_def process_papers_def process_papers_try_def process_paper_def save_paper_def
  no_fulltext_def emit_def logger_def sys_exit_def Path_def truediv_def exists_def is_dir_def
  node_at_def parent_def open_write_def Let_def strip_def isspace_def read_line_def
  sample_args_def sample_extern_def sample_world_def paper_a_def paper_b_def drop_slashes_def
  target_def

section \<open>Library type\<close>

lemma validate_bad_type:
  "zotero_library_type a \<noteq> ''user'' \<Longrightarrow> zotero_library_type a \<noteq> ''group'' \<Longrightarrow>
   validate_args a w =
     (Inl (SystemExit 1), logger ERROR (InvalidLibraryType (zotero_library_type a)) w)"
  by (simp add: validate_args_def)

text \<open>
  C5. Whatever the rest of the resolved configuration, the collaborators and the file
  system are, a library type other than \<open>user\<close> and \<open>group\<close> ends the process with status
  1; the only thing the run does is log the error, so no synchronization is attempted.
\<close>

theorem invalid_library_type_exits:
  assumes "zotero_library_type a \<noteq> ''user''" and "zotero_library_type a \<noteq> ''group''"
  shows "run a ext w =
           (Exit 1,
            w\<lparr>trace := trace w @ [Log ERROR (InvalidLibraryType (zotero_library_type a))]\<rparr>) \<and>
         CallSync \<notin> set (drop (length (trace w)) (trace (snd (run a ext w))))"
  using assms by (simp add: run_def main_def validate_bad_type logger_def emit_def)

theorem invalid_library_type_exits_witness:
  "run ((sample_args None False)\<lparr>zotero_library_type := ''groups''\<rparr>)
       (sample_extern [(0, paper_a)]) (sample_world Map.empty []) =
     (Exit 1, \<lparr>fs = Map.empty, console = [],
               trace = [Log ERROR (InvalidLibraryType ''groups'')]\<rparr>)"
proof -
  let ?a = "(sample_args None False)\<lparr>zotero_library_type := ''groups''\<rparr>"
  have h1: "zotero_library_type ?a \<noteq> ''user''" by (simp add: sample_args_def)
  have h2: "zotero_library_type ?a \<noteq> ''group''" by (simp add: sample_args_def)
  show ?thesis
    using invalid_library_type_exits [OF h1 h2, of "sample_extern [(0, paper_a)]"
        "sample_world Map.empty []"]
    by (simp add: sample_args_def sample_world_def)
qed

section \<open>Synchronization failures and interrupts\<close>

lemma process_papers_sync_raises:
  assumes "sync_zotero_collection ext ck = Inl e" and "is_Exception e"
  shows "process_papers ext ck od w =
    (Inl (SystemExit 1), w\<lparr>trace := trace w @ [CallSync, Log ERROR (ErrorProcessing e)]\<rparr>)"
  using assms by (simp add: process_papers_def process_papers_try_def emit_def logger_def)

lemma process_papers_df_raises:
  assumes "sync_zotero_collection ext ck = Inr m" and "get_library_df ext ck = Inl e"
    and "is_Exception e"
  shows "process_papers ext ck od w =
    (Inl (SystemExit 1),
     w\<lparr>trace := trace w @ [CallSync, Log INFO (SyncResult m), CallGetDf,
                            Log ERROR (ErrorProcessing e)]\<rparr>)"
  using assms by (simp add: process_papers_def process_papers_try_def emit_def logger_def)

text \<open>A \<open>SystemExit\<close> raised by \<open>process_papers\<close> passes both handlers of \<open>main\<close>.\<close>

lemma main_after_input:
  assumes "validate_args a0 w0 = (Inr (), w1)" and "get_interactive_input a0 w1 = (Inr a, w2)"
    and "zotero_client_init ext (zotero_api_key a) (zotero_library_id a)
           (zotero_library_type a) = None"
    and "openalex_client_init ext = None"
    and "process_papers ext (zotero_collection_key a)
           (if dry_run a then None else obsidian_directory a)
           (w2\<lparr>trace := trace w2 @ [Log INFO InitializingZotero, CallZoteroInit,
                  Log INFO InitializingOpenAlex, CallOpenAlexInit]\<rparr>) = (Inl (SystemExit n), w3)"
  shows "run a0 ext w0 = (Exit n, w3)"
  using assms by (simp add: run_def main_def main_try_def emit_def logger_def Let_def)

text \<open>
  C7. Once validation and prompting are over and both clients are initialised, an
  exception (an instance of Python's \<open>Exception\<close>) raised by the synchronization or by the
  retrieval of the result table ends the process with status 1. The last thing logged is
  the error carrying that exception; before it the synchronization was called exactly
  once, nothing was written, and the file system is the one left by validation.
\<close>

theorem sync_failure_is_fatal:
  assumes "validate_args a0 w0 = (Inr (), w1)"
    and "get_interactive_input a0 w1 = (Inr a, w2)"
    and "zotero_client_init ext (zotero_api_key a) (zotero_library_id a)
           (zotero_library_type a) = None"
    and "openalex_client_init ext = None"
    and "is_Exception e"
    and "sync_zotero_collection ext (zotero_collection_key a) = Inl e \<or>
         (\<exists>m. sync_zotero_collection ext (zotero_collection_key a) = Inr m \<and>
              get_library_df ext (zotero_collection_key a) = Inl e)"
  shows "\<exists>evs. run a0 ext w0 =
            (Exit 1, w2\<lparr>trace := trace w2 @ evs @ [Log ERROR (ErrorProcessing e)]\<rparr>) \<and>
          length (filter (\<lambda>x. x = CallSync) evs) = 1 \<and> \<not> list_ex is_write evs"
proof -
  let ?pre = "[Log INFO InitializingZotero, CallZoteroInit, Log INFO InitializingOpenAlex,
               CallOpenAlexInit]"
  let ?w = "w2\<lparr>trace := trace w2 @ ?pre\<rparr>"
  from assms(6) show ?thesis
  proof
    assume s: "sync_zotero_collection ext (zotero_collection_key a) = Inl e"
    have "run a0 ext w0 =
        (Exit 1, ?w\<lparr>trace := trace ?w @ [CallSync, Log ERROR (ErrorProcessing e)]\<rparr>)"
      by (rule main_after_input [OF assms(1-4)])
         (simp only: process_papers_sync_raises [OF s assms(5)])
    then have "run a0 ext w0 =
        (Exit 1, w2\<lparr>trace := trace w2 @ (?pre @ [CallSync]) @
                                 [Log ERROR (ErrorProcessing e)]\<rparr>)"
      by simp
    then show ?thesis by (intro exI [of _ "?pre @ [CallSync]"]) simp
  next
    assume "\<exists>m. sync_zotero_collection ext (zotero_collection_key a) = Inr m \<and>
              get_library_df ext (zotero_collection_key a) = Inl e"
    then obtain m where s: "sync_zotero_collection ext (zotero_collection_key a) = Inr m"
      and g: "get_library_df ext (zotero_collection_key a) = Inl e" by blast
    let ?mid = "[CallSync, Log INFO (SyncResult m), CallGetDf]"
    have "run a0 ext w0 =
        (Exit 1, ?w\<lparr>trace := trace ?w @ [CallSync, Log INFO (SyncResult m), CallGetDf,
                                          Log ERROR (ErrorProcessing e)]\<rparr>)"
      by (rule main_after_input [OF assms(1-4)])
         (simp only: process_papers_df_raises [OF s g assms(5)])
    then have "run a0 ext w0 =
        (Exit 1, w2\<lparr>trace := trace w2 @ (?pre @ ?mid) @ [Log ERROR (ErrorProcessing e)]\<rparr>)"
      by simp
    then show ?thesis by (intro exI [of _ "?pre @ ?mid"]) simp
  qed
qed

theorem sync_failure_is_fatal_witness:
  "\<exists>evs. run (sample_args None True)
            ((sample_extern [])\<lparr>sync_zotero_collection := (\<lambda>c. Inl (OtherError ''timeout''))\<rparr>)
            (sample_world Map.empty [Inr []]) =
          (Exit 1, \<lparr>fs = Map.empty, console = [],
              trace = [Prompted AskObsidianDirectory] @ evs @
                      [Log ERROR (ErrorProcessing (OtherError ''timeout''))]\<rparr>) \<and>
         length (filter (\<lambda>x. x = CallSync) evs) = 1 \<and> \<not> list_ex is_write evs"
proof -
  let ?a = "sample_args None True"
  let ?ext = "(sample_extern [])\<lparr>sync_zotero_collection :=
                 (\<lambda>c. Inl (OtherError ''timeout''))\<rparr>"
  let ?w = "sample_world Map.empty [Inr []]"
  let ?w2 = "\<lparr>fs = Map.empty, console = [], trace = [Prompted AskObsidianDirectory]\<rparr>"
  have h1: "validate_args ?a ?w = (Inr (), ?w)"
    by (simp add: validate_args_def sample_args_def)
  have h2: "get_interactive_input ?a ?w = (Inr ?a, ?w2)"
    by (simp add: get_interactive_input_def sample_args_def sample_world_def read_line_def
        emit_def strip_def)
  have h3: "zotero_client_init ?ext (zotero_api_key ?a) (zotero_library_id ?a)
              (zotero_library_type ?a) = None"
    by (simp add: sample_extern_def)
  have h4: "openalex_client_init ?ext = None"
    by (simp add: sample_extern_def)
  have h5: "is_Exception (OtherError ''timeout'')" by simp
  have h6: "sync_zotero_collection ?ext (zotero_collection_key ?a) =
              Inl (OtherError ''timeout'') \<or>
            (\<exists>m. sync_zotero_collection ?ext (zotero_collection_key ?a) = Inr m \<and>
                 get_library_df ?ext (zotero_collection_key ?a) = Inl (OtherError ''timeout''))"
    by simp
  show ?thesis
    using sync_failure_is_fatal [OF h1 h2 h3 h4 h5 h6] by simp
qed

text \<open>
  C3, at a concrete input: the API key is missing, so \<open>getpass\<close> prompts for it, and the
  user interrupts the prompt. The prompt stands before the \<open>try\<close> of \<open>main\<close>, so the
  \<open>KeyboardInterrupt\<close> reaches no handler: the process does not exit with status 0.
\<close>

theorem interrupt_at_prompt_is_uncaught:
  "fst (run ((sample_args None False)\<lparr>zotero_api_key := None\<rparr>) (sample_extern [(0, paper_a)])
          (sample_world Map.empty [Inl KeyboardInterrupt])) = Uncaught KeyboardInterrupt"
  by (simp add: run_defs)

text \<open>The handler of \<open>main\<close> does what C3 says for an interrupt raised inside the \<open>try\<close>.\<close>

lemma interrupt_inside_try_exits_0:
  assumes "validate_args a0 w0 = (Inr (), w1)" and "get_interactive_input a0 w1 = (Inr a, w2)"
    and "main_try a ext w2 = (Inl KeyboardInterrupt, w3)"
  shows "run a0 ext w0 = (Exit 0, logger INFO OperationCancelled w3)"
  using assms by (simp add: run_def main_def)

lemma interrupt_during_sync:
  assumes "sync_zotero_collection ext ck = Inl KeyboardInterrupt"
  shows "fst (process_papers ext ck od w) = Inl KeyboardInterrupt"
  using assms by (simp add: process_papers_def process_papers_try_def)

section \<open>One record\<close>

lemma usable_fulltext_iff:
  "usable_fulltext paper = (\<exists>t. map_of paper ''fulltext'' = Some (PStr t) \<and> strip t \<noteq> [])"
  by (cases "map_of paper ''fulltext''"; cases "the (map_of paper ''fulltext'')")
     (simp_all add: usable_fulltext_def)

lemma process_paper_unusable:
  assumes "\<not> usable_fulltext paper"
  shows "process_paper ext od (i, paper) n w = no_fulltext i paper n w"
  using assms
  by (auto simp: process_paper_def usable_fulltext_iff split: option.splits pyval.splits)

lemma process_paper_usable:
  assumes "map_of paper ''fulltext'' = Some (PStr fulltext)" and "strip fulltext \<noteq> []"
    and "map_of paper ''title'' = Some title"
  shows "process_paper ext od (i, paper) n w =
     (if truthy od then save_paper ext (the od) title (document title fulltext) n w
      else (Inr (n + 1), logger INFO (WouldProcess title) w))"
  using assms by (simp add: process_paper_def document_def)

lemma process_paper_no_title:
  assumes "usable_fulltext paper" and "map_of paper ''title'' = None"
  shows "process_paper ext od (i, paper) n w = (Inl (KeyError ''title''), w)"
  using assms by (auto simp: process_paper_def usable_fulltext_iff)

lemma save_paper_written:
  assumes "sanitize_filename ext title = Inr name"
    and "open_write (fs w) (target d name) text = Inr f'"
  shows "save_paper ext d title text n w =
     (Inr (n + 1),
      w\<lparr>fs := f', trace := trace w @ [CallSanitize title, FsWrite (target d name) text,
                         Log INFO (SavedFulltext title (target d name))]\<rparr>)"
  using assms by (simp add: save_paper_def target_def Let_def emit_def logger_def)

lemma save_paper_oserror:
  assumes "sanitize_filename ext title = Inr name"
    and "open_write (fs w) (target d name) text = Inl e"
  shows "save_paper ext d title text n w =
     (Inr n, w\<lparr>trace := trace w @ [CallSanitize title, FsWrite (target d name) text,
                         Log ERROR (FailedToSave title (OSError e))]\<rparr>)"
  using assms by (simp add: save_paper_def target_def Let_def emit_def logger_def)

lemma save_paper_counted:
  assumes "save_paper ext d title text n w = (Inr (Suc n), w')"
  shows "\<exists>name f'. sanitize_filename ext title = Inr name \<and>
           open_write (fs w) (target d name) text = Inr f' \<and> fs w' = f'"
  using assms
  by (auto simp: save_paper_def target_def Let_def split: sum.splits if_splits)

lemma open_write_content:
  "open_write f p text = Inr f' \<Longrightarrow> f' p = Some (File text)"
  by (auto simp: open_write_def split: if_splits option.splits node.splits)

lemma is_dir_open_write:
  assumes "is_dir f (parent p)" and "\<not> is_dir f p"
  shows "open_write f p text = Inr (f(p \<mapsto> File text))"
  using assms by (simp add: open_write_def is_dir_def)

text \<open>
  C1. Take a record whose full text is a string that is not blank once trimmed, and an
  output directory. Whenever the record is saved (the processed count goes up), the file
  at \<open>directory / (sanitized title + ".md")\<close> holds the header \<open># title\<close>, an empty line
  and the full text as it is. And it is saved whenever the sanitizer returns a name, the
  directory of the target exists and the target is not itself a directory. The title is
  inserted as an f-string does, a string title as it is.
\<close>

theorem written_file_content:
  assumes "map_of paper ''fulltext'' = Some (PStr fulltext)" and "strip fulltext \<noteq> []"
    and "map_of paper ''title'' = Some title" and "d \<noteq> []"
  shows "(\<forall>n w w'. process_paper ext (Some d) (i, paper) n w = (Inr (Suc n), w') \<longrightarrow>
            (\<exists>name. sanitize_filename ext title = Inr name \<and>
               fs w' (target d name) =
                 Some (File (''# '' @ py_str title @ [CHR 0x0A, CHR 0x0A] @ fulltext)))) \<and>
         (\<forall>n w name. sanitize_filename ext title = Inr name \<longrightarrow>
            is_dir (fs w) (parent (target d name)) \<longrightarrow> \<not> is_dir (fs w) (target d name) \<longrightarrow>
            (\<exists>w'. process_paper ext (Some d) (i, paper) n w = (Inr (Suc n), w') \<and>
               fs w' = (fs w)(target d name \<mapsto>
                 File (''# '' @ py_str title @ [CHR 0x0A, CHR 0x0A] @ fulltext))))"
proof (intro conjI allI impI)
  fix n :: nat and w w' :: world
  assume "process_paper ext (Some d) (i, paper) n w = (Inr (Suc n), w')"
  then have "save_paper ext d title (document title fulltext) n w = (Inr (Suc n), w')"
    using assms by (simp add: process_paper_usable)
  from save_paper_counted [OF this] obtain name f' where
    "sanitize_filename ext title = Inr name"
    "open_write (fs w) (target d name) (document title fulltext) = Inr f'" "fs w' = f'"
    by blast
  then show "\<exists>name. sanitize_filename ext title = Inr name \<and>
      fs w' (target d name) =
        Some (File (''# '' @ py_str title @ [CHR 0x0A, CHR 0x0A] @ fulltext))"
    using open_write_content [of "fs w" "target d name" "document title fulltext" f']
    by (auto simp: document_def)
next
  fix n :: nat and w :: world and name :: string
  assume s: "sanitize_filename ext title = Inr name"
    and "is_dir (fs w) (parent (target d name))" and "\<not> is_dir (fs w) (target d name)"
  then have "open_write (fs w) (target d name) (document title fulltext) =
      Inr ((fs w)(target d name \<mapsto> File (document title fulltext)))"
    by (rule_tac is_dir_open_write)
  from save_paper_written [OF s this]
  show "\<exists>w'. process_paper ext (Some d) (i, paper) n w = (Inr (Suc n), w') \<and>
      fs w' = (fs w)(target d name \<mapsto>
        File (''# '' @ py_str title @ [CHR 0x0A, CHR 0x0A] @ fulltext))"
    using assms by (simp add: process_paper_usable document_def)
qed

theorem written_file_content_witness:
  "\<exists>w'. process_paper (sample_extern []) (Some ''/tmp/out'') (0, paper_a) 0
            (sample_world [[''/'', ''tmp'', ''out''] \<mapsto> Dir] []) = (Inr (Suc 0), w') \<and>
        fs w' [''/'', ''tmp'', ''out'', ''Paper A.md''] =
          Some (File (''# Paper A'' @ [CHR 0x0A, CHR 0x0A] @ ''Body A''))"
proof -
  let ?w = "sample_world [[''/'', ''tmp'', ''out''] \<mapsto> Dir] []"
  have h1: "map_of paper_a ''fulltext'' = Some (PStr ''Body A'')" by (simp add: paper_a_def)
  have h2: "strip ''Body A'' \<noteq> []" by (simp add: strip_def isspace_def)
  have h3: "map_of paper_a ''title'' = Some (PStr ''Paper A'')" by (simp add: paper_a_def)
  have h4: "''/tmp/out'' \<noteq> []" by simp
  have tgt: "target ''/tmp/out'' ''Paper A'' = [''/'', ''tmp'', ''out'', ''Paper A.md'']"
    by (simp add: target_def truediv_def Path_def)
  have s: "sanitize_filename (sample_extern []) (PStr ''Paper A'') = Inr ''Paper A''"
    by (simp add: sample_extern_def drop_slashes_def)
  have d1: "is_dir (fs ?w) (parent (target ''/tmp/out'' ''Paper A''))"
    by (simp add: tgt is_dir_def parent_def node_at_def sample_world_def)
  have d2: "\<not> is_dir (fs ?w) (target ''/tmp/out'' ''Paper A'')"
    by (simp add: tgt is_dir_def node_at_def sample_world_def)
  from written_file_content [OF h1 h2 h3 h4, of "sample_extern []" 0] s d1 d2
  obtain w' where "process_paper (sample_extern []) (Some ''/tmp/out'') (0, paper_a) 0 ?w =
      (Inr (Suc 0), w')"
    and "fs w' = (fs ?w)(target ''/tmp/out'' ''Paper A'' \<mapsto>
           File (''# '' @ py_str (PStr ''Paper A'') @ [CHR 0x0A, CHR 0x0A] @ ''Body A''))"
    by blast
  then show ?thesis by (auto simp: tgt)
qed



section \<open>The loop over the records\<close>

text \<open>The events a step adds do not depend on the events before it.\<close>

lemma process_paper_trace:
  "process_paper ext od row n (w\<lparr>trace := t\<rparr>) =
     (case process_paper ext od row n (w\<lparr>trace := []\<rparr>) of
        (r, w') \<Rightarrow> (r, w'\<lparr>trace := t @ trace w'\<rparr>))"
  by (cases row)
     (auto simp: process_paper_def save_paper_def no_fulltext_def Let_def emit_def logger_def
           split: option.splits pyval.splits sum.splits)

lemma process_rows_trace:
  "process_rows ext od df n (w\<lparr>trace := t\<rparr>) =
     (case process_rows ext od df n (w\<lparr>trace := []\<rparr>) of
        (r, w') \<Rightarrow> (r, w'\<lparr>trace := t @ trace w'\<rparr>))"
proof (induction df arbitrary: n w t)
  case Nil
  show ?case by simp
next
  case (Cons row rest)
  obtain r1 w1 where step: "process_paper ext od row n (w\<lparr>trace := []\<rparr>) = (r1, w1)"
    by (cases "process_paper ext od row n (w\<lparr>trace := []\<rparr>)")
  have step_t: "process_paper ext od row n (w\<lparr>trace := t\<rparr>) = (r1, w1\<lparr>trace := t @ trace w1\<rparr>)"
    by (simp add: process_paper_trace [where w=w and t=t] step)
  show ?case
  proof (cases r1)
    case (Inl e)
    then show ?thesis by (simp add: step step_t)
  next
    case (Inr m)
    obtain r2 w2 where rest: "process_rows ext od rest m (w1\<lparr>trace := []\<rparr>) = (r2, w2)"
      by (cases "process_rows ext od rest m (w1\<lparr>trace := []\<rparr>)")
    have a: "process_rows ext od rest m (w1\<lparr>trace := t @ trace w1\<rparr>) =
        (r2, w2\<lparr>trace := (t @ trace w1) @ trace w2\<rparr>)"
      by (simp add: Cons.IH [where n=m and w=w1 and t="t @ trace w1"] rest)
    have "process_rows ext od rest m (w1\<lparr>trace := trace w1\<rparr>) =
        (r2, w2\<lparr>trace := trace w1 @ trace w2\<rparr>)"
      by (simp only: Cons.IH [where n=m and w=w1 and t="trace w1"] rest prod.case)
    then have b: "process_rows ext od rest m w1 = (r2, w2\<lparr>trace := trace w1 @ trace w2\<rparr>)"
      by simp
    show ?thesis by (simp add: step step_t Inr a b)
  qed
qed

lemma process_rows_after:
  assumes "process_rows ext od df n (w\<lparr>trace := []\<rparr>) = (r, w')"
  shows "process_rows ext od df n w = (r, w'\<lparr>trace := trace w @ trace w'\<rparr>)"
proof -
  have "process_rows ext od df n (w\<lparr>trace := trace w\<rparr>) = (r, w'\<lparr>trace := trace w @ trace w'\<rparr>)"
    by (simp only: process_rows_trace [where w=w and t="trace w"] assms prod.case)
  then show ?thesis by simp
qed

lemma process_paper_count:
  assumes "process_paper ext od (i, paper) n w = (Inr m, w')"
  shows "m \<le> n + (if usable_fulltext paper then 1 else 0)"
proof (cases "usable_fulltext paper")
  case False
  with assms show ?thesis by (simp add: process_paper_unusable no_fulltext_def)
next
  case True
  then obtain t where "map_of paper ''fulltext'' = Some (PStr t)" "strip t \<noteq> []"
    by (auto simp: usable_fulltext_iff)
  with assms True show ?thesis
    by (auto simp: process_paper_def save_paper_def Let_def
             split: option.splits sum.splits if_splits)
qed

lemma process_rows_count:
  assumes "process_rows ext od df n w = (Inr m, w')"
  shows "m \<le> n + length (filter (\<lambda>r. usable_fulltext (snd r)) df)"
  using assms
proof (induction df arbitrary: n w)
  case Nil
  then show ?case by simp
next
  case (Cons row rest)
  obtain i paper where row: "row = (i, paper)" by (cases row)
  obtain r1 w1 where step: "process_paper ext od (i, paper) n w = (r1, w1)"
    by (cases "process_paper ext od (i, paper) n w")
  show ?case
  proof (cases r1)
    case (Inl e)
    with Cons.prems step row show ?thesis by simp
  next
    case (Inr k)
    with Cons.prems step row have "process_rows ext od rest k w1 = (Inr m, w')" by simp
    from Cons.IH [OF this] process_paper_count [of ext od i paper n w k w1] step Inr row
    show ?thesis by (simp split: if_splits)
  qed
qed

lemma rows_skip_unusable:
  "fst (process_rows ext od df n w) =
     fst (process_rows ext od (filter (\<lambda>r. usable_fulltext (snd r)) df) n w) \<and>
   fs (snd (process_rows ext od df n w)) =
     fs (snd (process_rows ext od (filter (\<lambda>r. usable_fulltext (snd r)) df) n w)) \<and>
   filter (\<lambda>e. \<not> is_warning e) (trace (snd (process_rows ext od df n w))) =
     filter (\<lambda>e. \<not> is_warning e)
       (trace (snd (process_rows ext od (filter (\<lambda>r. usable_fulltext (snd r)) df) n w)))"
proof (induction df arbitrary: n w)
  case Nil
  show ?case by simp
next
  case (Cons row rest)
  let ?keep = "filter (\<lambda>r. usable_fulltext (snd r))"
  obtain i paper where row: "row = (i, paper)" by (cases row)
  show ?case
  proof (cases "usable_fulltext paper")
    case True
    obtain r1 w1 where step: "process_paper ext od (i, paper) n w = (r1, w1)"
      by (cases "process_paper ext od (i, paper) n w")
    show ?thesis
    proof (cases r1)
      case (Inl e)
      then show ?thesis by (simp add: row True step)
    next
      case (Inr k)
      then show ?thesis using Cons.IH [of k w1] by (simp add: row True step)
    qed
  next
    case False
    let ?warn = "Log WARNING (NoFulltextFound (case map_of paper ''title'' of
                   Some t \<Rightarrow> Inr t | None \<Rightarrow> Inl i))"
    have step: "process_paper ext od (i, paper) n w = (Inr n, w\<lparr>trace := trace w @ [?warn]\<rparr>)"
      by (simp add: process_paper_unusable [OF False] no_fulltext_def logger_def emit_def)
    obtain r2 w2 where all: "process_rows ext od rest n (w\<lparr>trace := []\<rparr>) = (r2, w2)"
      by (cases "process_rows ext od rest n (w\<lparr>trace := []\<rparr>)")
    obtain r3 w3 where kept: "process_rows ext od (?keep rest) n (w\<lparr>trace := []\<rparr>) = (r3, w3)"
      by (cases "process_rows ext od (?keep rest) n (w\<lparr>trace := []\<rparr>)")
    have "process_rows ext od rest n (w\<lparr>trace := trace w @ [?warn]\<rparr>) =
        (r2, w2\<lparr>trace := (trace w @ [?warn]) @ trace w2\<rparr>)"
      by (simp only: process_rows_trace [where w=w and t="trace w @ [?warn]"] all prod.case)
    then have lhs: "process_rows ext od (row # rest) n w =
        (r2, w2\<lparr>trace := (trace w @ [?warn]) @ trace w2\<rparr>)"
      by (simp add: row step)
    have rhs: "process_rows ext od (?keep (row # rest)) n w =
        (r3, w3\<lparr>trace := trace w @ trace w3\<rparr>)"
      using process_rows_after [OF kept] by (simp add: row False)
    from Cons.IH [of n "w\<lparr>trace := []\<rparr>"] all kept
    have "r2 = r3" "fs w2 = fs w3"
      "filter (\<lambda>e. \<not> is_warning e) (trace w2) = filter (\<lambda>e. \<not> is_warning e) (trace w3)"
      by simp_all
    then show ?thesis unfolding lhs rhs by simp
  qed
qed

text \<open>
  C2. Records without usable full text (field missing, not a string, or blank once
  trimmed) leave no mark but a warning: the result of the loop (the processed count, or
  the exception that ends it), the file system it leaves and every event other than
  warnings are those of the loop over the records with usable full text alone. Such a
  record's step writes nothing and keeps the count, and the count grows by at most the
  number of records with usable full text.
\<close>

theorem unusable_records_write_nothing:
  "fst (process_rows ext od df n w) =
     fst (process_rows ext od (filter (\<lambda>r. usable_fulltext (snd r)) df) n w) \<and>
   fs (snd (process_rows ext od df n w)) =
     fs (snd (process_rows ext od (filter (\<lambda>r. usable_fulltext (snd r)) df) n w)) \<and>
   filter (\<lambda>e. \<not> is_warning e) (trace (snd (process_rows ext od df n w))) =
     filter (\<lambda>e. \<not> is_warning e)
       (trace (snd (process_rows ext od (filter (\<lambda>r. usable_fulltext (snd r)) df) n w))) \<and>
   (\<forall>i paper. \<not> usable_fulltext paper \<longrightarrow>
      (\<exists>m. process_paper ext od (i, paper) n w =
             (Inr n, w\<lparr>trace := trace w @ [Log WARNING m]\<rparr>))) \<and>
   (\<forall>m. fst (process_rows ext od df n w) = Inr m \<longrightarrow>
      m \<le> n + length (filter (\<lambda>r. usable_fulltext (snd r)) df))"
proof -
  note a = rows_skip_unusable [of ext od df n w]
  have b: "\<forall>i paper. \<not> usable_fulltext paper \<longrightarrow>
      (\<exists>m. process_paper ext od (i, paper) n w =
             (Inr n, w\<lparr>trace := trace w @ [Log WARNING m]\<rparr>))"
    by (auto simp: process_paper_unusable no_fulltext_def logger_def emit_def)
  have c: "\<forall>m. fst (process_rows ext od df n w) = Inr m \<longrightarrow>
      m \<le> n + length (filter (\<lambda>r. usable_fulltext (snd r)) df)"
  proof (intro allI impI)
    fix m
    assume "fst (process_rows ext od df n w) = Inr m"
    then have "process_rows ext od df n w = (Inr m, snd (process_rows ext od df n w))"
      by (cases "process_rows ext od df n w") simp
    then show "m \<le> n + length (filter (\<lambda>r. usable_fulltext (snd r)) df)"
      by (rule process_rows_count)
  qed
  show ?thesis
    by (intro conjI a [THEN conjunct1] a [THEN conjunct2, THEN conjunct1]
        a [THEN conjunct2, THEN conjunct2] b c)
qed
text \<open>
  The scenario of the specification: Paper A has a body, Paper B an empty one, the output
  directory exists. One file is written, the count is 1, Paper B only gets a warning.
\<close>

theorem unusable_records_write_nothing_witness:
  "fst (process_rows (sample_extern []) (Some ''/tmp/out'') [(0, paper_a), (1, paper_b)] 0
          (sample_world [[''/'', ''tmp'', ''out''] \<mapsto> Dir] [])) = Inr 1 \<and>
   fs (snd (process_rows (sample_extern []) (Some ''/tmp/out'') [(0, paper_a), (1, paper_b)] 0
          (sample_world [[''/'', ''tmp'', ''out''] \<mapsto> Dir] [])))
      [''/'', ''tmp'', ''out'', ''Paper A.md''] =
     Some (File (''# Paper A'' @ [CHR 0x0A, CHR 0x0A] @ ''Body A'')) \<and>
   fs (snd (process_rows (sample_extern []) (Some ''/tmp/out'') [(0, paper_a), (1, paper_b)] 0
          (sample_world [[''/'', ''tmp'', ''out''] \<mapsto> Dir] [])))
      [''/'', ''tmp'', ''out'', ''Paper B.md''] = None \<and>
   (\<exists>m. process_paper (sample_extern []) (Some ''/tmp/out'') (1, paper_b) 0
           (sample_world [[''/'', ''tmp'', ''out''] \<mapsto> Dir] []) =
         (Inr 0, \<lparr>fs = [[''/'', ''tmp'', ''out''] \<mapsto> Dir], console = [],
                  trace = [Log WARNING m]\<rparr>))"
proof -
  let ?E = "sample_extern []"
  let ?od = "Some ''/tmp/out''"
  let ?df = "[(0, paper_a), (1, paper_b)]"
  let ?W = "sample_world [[''/'', ''tmp'', ''out''] \<mapsto> Dir] []"
  have ua: "usable_fulltext paper_a"
    by (simp add: usable_fulltext_def paper_a_def strip_def isspace_def)
  have ub: "\<not> usable_fulltext paper_b"
    by (simp add: usable_fulltext_def paper_b_def strip_def)
  have keep: "filter (\<lambda>r. usable_fulltext (snd r)) ?df = [(0, paper_a)]"
    by (simp add: ua ub)
  have one: "fst (process_rows ?E ?od [(0, paper_a)] 0 ?W) = Inr 1"
    by (simp add: run_defs)
  have two: "fs (snd (process_rows ?E ?od [(0, paper_a)] 0 ?W))
               [''/'', ''tmp'', ''out'', ''Paper A.md''] =
             Some (File (''# Paper A'' @ [CHR 0x0A, CHR 0x0A] @ ''Body A''))"
    by (simp add: run_defs)
  have three: "fs (snd (process_rows ?E ?od [(0, paper_a)] 0 ?W))
               [''/'', ''tmp'', ''out'', ''Paper B.md''] = None"
    by (simp add: run_defs)
  note t = unusable_records_write_nothing [of ?E ?od ?df 0 ?W]
  from t have r: "fst (process_rows ?E ?od ?df 0 ?W) =
      fst (process_rows ?E ?od (filter (\<lambda>r. usable_fulltext (snd r)) ?df) 0 ?W)"
    by (rule conjunct1)
  from t have f: "fs (snd (process_rows ?E ?od ?df 0 ?W)) =
      fs (snd (process_rows ?E ?od (filter (\<lambda>r. usable_fulltext (snd r)) ?df) 0 ?W))"
    by (elim conjE)
  from t ub obtain m where
    "process_paper ?E ?od (1, paper_b) 0 ?W = (Inr 0, ?W\<lparr>trace := trace ?W @ [Log WARNING m]\<rparr>)"
    by blast
  then have w: "\<exists>m. process_paper ?E ?od (1, paper_b) 0 ?W =
      (Inr 0, \<lparr>fs = [[''/'', ''tmp'', ''out''] \<mapsto> Dir], console = [],
               trace = [Log WARNING m]\<rparr>)"
    by (auto simp: sample_world_def)
  from r f show ?thesis
    unfolding keep by (simp only: one two three w simp_thms)
qed

section \<open>The output directory\<close>

lemma mkdir_there:
  "node_at f p = Some Dir \<Longrightarrow> mkdir f p = Inr f"
  "node_at f p = Some (File c) \<Longrightarrow> mkdir f p = Inl FileExistsError"
  by (subst mkdir.simps, simp)+

lemma mkdir_under:
  "node_at f p = None \<Longrightarrow> node_at f (parent p) = Some Dir \<Longrightarrow> mkdir f p = Inr (f(p \<mapsto> Dir))"
  "node_at f p = None \<Longrightarrow> node_at f (parent p) = Some (File c) \<Longrightarrow>
   mkdir f p = Inl NotADirectoryError"
  by (subst mkdir.simps, simp)+

lemma mkdir_parents:
  "node_at f p = None \<Longrightarrow> node_at f (parent p) = None \<Longrightarrow>
   mkdir f p = (case mkdir f (parent p) of Inl e \<Rightarrow> Inl e | Inr f' \<Rightarrow> Inr (f'(p \<mapsto> Dir)))"
  by (subst mkdir.simps) simp


lemma node_at_add_dir:
  "node_at (f(p \<mapsto> Dir)) q = (if q = p then Some Dir else node_at f q)"
  by (simp add: node_at_def)

text \<open>What a successful \<open>mkdir\<close> returns: one step, by the cases of its definition.\<close>

lemma mkdir_Inr_cases:
  assumes "mkdir f p = Inr f'"
  shows "(node_at f p = Some Dir \<and> f' = f) \<or>
         (node_at f p = None \<and> node_at f (parent p) = Some Dir \<and> f' = f(p \<mapsto> Dir)) \<or>
         (node_at f p = None \<and> node_at f (parent p) = None \<and>
            (\<exists>f''. mkdir f (parent p) = Inr f'' \<and> f' = f''(p \<mapsto> Dir)))"
proof (cases "node_at f p")
  case (Some nd)
  with assms show ?thesis by (cases nd) (simp_all add: mkdir_there)
next
  case None
  show ?thesis
  proof (cases "node_at f (parent p)")
    case (Some nd)
    with None assms show ?thesis by (cases nd) (simp_all add: mkdir_under)
  next
    case up: None
    with None assms show ?thesis
      by (cases "mkdir f (parent p)") (simp_all add: mkdir_parents)
  qed
qed

lemma mkdir_is_dir: "mkdir f p = Inr f' \<Longrightarrow> is_dir f' p"
  using mkdir_Inr_cases [of f p f']
  by (auto simp: is_dir_def node_at_add_dir)


lemma wf_fs_add_dir:
  assumes "wf_fs f" and "is_dir f (parent p)"
  shows "wf_fs (f(p \<mapsto> Dir))"
  unfolding wf_fs_def
proof (intro allI impI)
  fix q
  assume q: "node_at (f(p \<mapsto> Dir)) q \<noteq> None"
  have keep: "node_at (f(p \<mapsto> Dir)) r = Some Dir" if "node_at f r = Some Dir" for r
    using that by (simp add: node_at_add_dir)
  show "node_at (f(p \<mapsto> Dir)) (parent q) = Some Dir"
  proof (cases "q = p")
    case True
    with assms(2) show ?thesis by (simp add: keep is_dir_def)
  next
    case False
    with q have "node_at f q \<noteq> None" by (simp add: node_at_add_dir)
    with assms(1) have "node_at f (parent q) = Some Dir" by (simp add: wf_fs_def)
    then show ?thesis by (rule keep)
  qed
qed

lemma mkdir_wf: "wf_fs f \<Longrightarrow> mkdir f p = Inr f' \<Longrightarrow> wf_fs f'"
proof (induction f p arbitrary: f' rule: mkdir.induct)
  case (1 f p)
  from mkdir_Inr_cases [OF "1.prems"(2)] show ?case
  proof (elim disjE conjE exE)
    assume "f' = f"
    with "1.prems"(1) show ?thesis by simp
  next
    assume a: "node_at f (parent p) = Some Dir" "f' = f(p \<mapsto> Dir)"
    have "wf_fs (f(p \<mapsto> Dir))"
      by (rule wf_fs_add_dir [OF "1.prems"(1)]) (simp add: is_dir_def a(1))
    then show ?thesis by (simp only: a(2))
  next
    fix f''
    assume h: "node_at f p = None" "node_at f (parent p) = None"
      "mkdir f (parent p) = Inr f''" "f' = f''(p \<mapsto> Dir)"
    have "wf_fs (f''(p \<mapsto> Dir))"
      by (rule wf_fs_add_dir [OF "1.IH" [OF h(1) h(2) "1.prems"(1) h(3)] mkdir_is_dir [OF h(3)]])
    then show ?thesis by (simp only: h(4))
  qed
qed

lemma wf_ancestors: "wf_fs f \<Longrightarrow> is_dir f p \<Longrightarrow> is_dir f ((parent ^^ k) p)"
  by (induction k) (auto simp: wf_fs_def is_dir_def)

lemma run_validate_exit:
  "validate_args a w = (Inl (SystemExit n), w') \<Longrightarrow> run a ext w = (Exit n, w')"
  by (simp add: run_def main_def)

lemma missing_path_is_named:
  assumes "\<not> exists f (Path d)"
  shows "d \<noteq> []"
  using assms by (auto simp: exists_def)

lemma validate_creates:
  assumes "zotero_library_type a = ''user'' \<or> zotero_library_type a = ''group''"
    and "obsidian_directory a = Some d" and "\<not> exists (fs w) (Path d)"
    and "mkdir (fs w) (Path d) = Inr f'"
  shows "validate_args a w =
     (Inr (), w\<lparr>fs := f', trace := trace w @
        [FsExists (Path d), FsMkdir (Path d), Log INFO (CreatedDirectory d)]\<rparr>)"
  using assms missing_path_is_named [OF assms(3)]
  by (auto simp: validate_args_def Let_def emit_def logger_def)

lemma validate_cannot_create:
  assumes "zotero_library_type a = ''user'' \<or> zotero_library_type a = ''group''"
    and "obsidian_directory a = Some d" and "\<not> exists (fs w) (Path d)"
    and "mkdir (fs w) (Path d) = Inl e"
  shows "validate_args a w =
     (Inl (SystemExit 1), w\<lparr>trace := trace w @
        [FsExists (Path d), FsMkdir (Path d), Log ERROR (CannotCreateDirectory d e)]\<rparr>)"
  using assms missing_path_is_named [OF assms(3)]
  by (auto simp: validate_args_def Let_def emit_def logger_def)

lemma validate_not_a_directory:
  assumes "zotero_library_type a = ''user'' \<or> zotero_library_type a = ''group''"
    and "obsidian_directory a = Some d" and "exists (fs w) (Path d)"
    and "\<not> is_dir (fs w) (Path d)"
  shows "validate_args a w =
     (Inl (SystemExit 1), w\<lparr>trace := trace w @
        [FsExists (Path d), FsIsDir (Path d), Log ERROR (ExistsNotDirectory d)]\<rparr>)"
proof -
  from assms(4) have "d \<noteq> []" by (auto simp: is_dir_def)
  with assms show ?thesis
    by (auto simp: validate_args_def Let_def emit_def logger_def)
qed

lemma validate_exit_no_sync:
  assumes "obsidian_directory a = Some d"
    and "(\<not> exists (fs w) (Path d) \<and> mkdir (fs w) (Path d) = Inl e) \<or>
         (exists (fs w) (Path d) \<and> \<not> is_dir (fs w) (Path d))"
  shows "\<exists>evs. run a ext w = (Exit 1, w\<lparr>trace := trace w @ evs\<rparr>) \<and> CallSync \<notin> set evs"
proof (cases "zotero_library_type a = ''user'' \<or> zotero_library_type a = ''group''")
  case False
  then have "run a ext w =
      (Exit 1, w\<lparr>trace := trace w @ [Log ERROR (InvalidLibraryType (zotero_library_type a))]\<rparr>)"
    by (simp add: run_validate_exit validate_bad_type logger_def emit_def)
  then show ?thesis by (intro exI [of _ "[Log ERROR (InvalidLibraryType (zotero_library_type a))]"]) simp
next
  case True
  from assms(2) show ?thesis
  proof
    assume h: "\<not> exists (fs w) (Path d) \<and> mkdir (fs w) (Path d) = Inl e"
    then have "run a ext w = (Exit 1, w\<lparr>trace := trace w @
        [FsExists (Path d), FsMkdir (Path d), Log ERROR (CannotCreateDirectory d e)]\<rparr>)"
      using validate_cannot_create [OF True assms(1)] by (simp add: run_validate_exit)
    then show ?thesis
      by (intro exI [of _ "[FsExists (Path d), FsMkdir (Path d),
                            Log ERROR (CannotCreateDirectory d e)]"]) simp
  next
    assume h: "exists (fs w) (Path d) \<and> \<not> is_dir (fs w) (Path d)"
    then have "run a ext w = (Exit 1, w\<lparr>trace := trace w @
        [FsExists (Path d), FsIsDir (Path d), Log ERROR (ExistsNotDirectory d)]\<rparr>)"
      using validate_not_a_directory [OF True assms(1)] by (simp add: run_validate_exit)
    then show ?thesis
      by (intro exI [of _ "[FsExists (Path d), FsIsDir (Path d),
                            Log ERROR (ExistsNotDirectory d)]"]) simp
  qed
qed

text \<open>
  C8. An output directory \<open>d\<close> is supplied in the resolved configuration. If the path does
  not exist, validation (once the library type has passed its own check) creates it: the
  path is a directory afterwards, and in a file system that is a tree so is every
  directory above it, the tree staying one; if the creation fails, the process exits with
  status 1. If the path exists and is not a directory, the process exits with status 1.
  In both fatal cases nothing but the checks and the error log has happened: no
  synchronization call, and the file system is untouched.
\<close>

theorem output_directory_is_validated:
  assumes "obsidian_directory a = Some d"
  shows "(\<not> exists (fs w) (Path d) \<longrightarrow>
           (\<forall>f'. (zotero_library_type a = ''user'' \<or> zotero_library_type a = ''group'') \<longrightarrow>
                 mkdir (fs w) (Path d) = Inr f' \<longrightarrow>
                 validate_args a w =
                   (Inr (), w\<lparr>fs := f', trace := trace w @
                      [FsExists (Path d), FsMkdir (Path d), Log INFO (CreatedDirectory d)]\<rparr>) \<and>
                 is_dir f' (Path d) \<and>
                 (wf_fs (fs w) \<longrightarrow>
                    wf_fs f' \<and> (\<forall>k. is_dir f' ((parent ^^ k) (Path d))))) \<and>
           (\<forall>e. mkdir (fs w) (Path d) = Inl e \<longrightarrow>
                 (\<exists>evs. run a ext w = (Exit 1, w\<lparr>trace := trace w @ evs\<rparr>) \<and>
                        CallSync \<notin> set evs))) \<and>
         (exists (fs w) (Path d) \<and> \<not> is_dir (fs w) (Path d) \<longrightarrow>
           (\<exists>evs. run a ext w = (Exit 1, w\<lparr>trace := trace w @ evs\<rparr>) \<and>
                  CallSync \<notin> set evs))"
proof (intro conjI impI allI)
  fix f'
  assume h: "\<not> exists (fs w) (Path d)"
    "zotero_library_type a = ''user'' \<or> zotero_library_type a = ''group''"
    "mkdir (fs w) (Path d) = Inr f'"
  show "validate_args a w =
      (Inr (), w\<lparr>fs := f', trace := trace w @
         [FsExists (Path d), FsMkdir (Path d), Log INFO (CreatedDirectory d)]\<rparr>)"
    by (rule validate_creates [OF h(2) assms h(1) h(3)])
  show "is_dir f' (Path d)" by (rule mkdir_is_dir [OF h(3)])
  assume wf: "wf_fs (fs w)"
  show "wf_fs f'" by (rule mkdir_wf [OF wf h(3)])
  fix k
  show "is_dir f' ((parent ^^ k) (Path d))"
    by (rule wf_ancestors [OF mkdir_wf [OF wf h(3)] mkdir_is_dir [OF h(3)]])
next
  fix e
  assume "\<not> exists (fs w) (Path d)" "mkdir (fs w) (Path d) = Inl e"
  then show "\<exists>evs. run a ext w = (Exit 1, w\<lparr>trace := trace w @ evs\<rparr>) \<and> CallSync \<notin> set evs"
    using validate_exit_no_sync [OF assms, of w e ext] by blast
next
  assume "exists (fs w) (Path d) \<and> \<not> is_dir (fs w) (Path d)"
  then show "\<exists>evs. run a ext w = (Exit 1, w\<lparr>trace := trace w @ evs\<rparr>) \<and> CallSync \<notin> set evs"
    using validate_exit_no_sync [OF assms, of w undefined ext] by blast
qed

text \<open>
  Three runs with \<open>/tmp/out\<close> supplied: on an empty file system both \<open>/tmp\<close> and
  \<open>/tmp/out\<close> are created; with a regular file at \<open>/tmp\<close> the creation fails; with a
  regular file at \<open>/tmp/out\<close> the path is not a directory.
\<close>

theorem output_directory_is_validated_witness:
  "validate_args (sample_args (Some ''/tmp/out'') False) (sample_world Map.empty []) =
     (Inr (), \<lparr>fs = [[''/'', ''tmp''] \<mapsto> Dir, [''/'', ''tmp'', ''out''] \<mapsto> Dir],
               console = [],
               trace = [FsExists [''/'', ''tmp'', ''out''], FsMkdir [''/'', ''tmp'', ''out''],
                        Log INFO (CreatedDirectory ''/tmp/out'')]\<rparr>) \<and>
   is_dir [[''/'', ''tmp''] \<mapsto> Dir, [''/'', ''tmp'', ''out''] \<mapsto> Dir] [''/'', ''tmp''] \<and>
   (\<exists>evs. run (sample_args (Some ''/tmp/out'') False) (sample_extern [(0, paper_a)])
            (sample_world [[''/'', ''tmp''] \<mapsto> File ''x''] []) =
          (Exit 1, \<lparr>fs = [[''/'', ''tmp''] \<mapsto> File ''x''], console = [], trace = evs\<rparr>) \<and>
          CallSync \<notin> set evs) \<and>
   (\<exists>evs. run (sample_args (Some ''/tmp/out'') False) (sample_extern [(0, paper_a)])
            (sample_world [[''/'', ''tmp''] \<mapsto> Dir, [''/'', ''tmp'', ''out''] \<mapsto> File ''x''] []) =
          (Exit 1, \<lparr>fs = [[''/'', ''tmp''] \<mapsto> Dir, [''/'', ''tmp'', ''out''] \<mapsto> File ''x''],
                    console = [], trace = evs\<rparr>) \<and>
          CallSync \<notin> set evs)"
proof -
  let ?a = "sample_args (Some ''/tmp/out'') False"
  let ?E = "sample_extern [(0, paper_a)]"
  let ?p = "[''/'', ''tmp'', ''out'']"
  let ?w1 = "sample_world Map.empty []"
  let ?w2 = "sample_world [[''/'', ''tmp''] \<mapsto> File ''x''] []"
  let ?w3 = "sample_world [[''/'', ''tmp''] \<mapsto> Dir, [''/'', ''tmp'', ''out''] \<mapsto> File ''x''] []"
  let ?f1 = "[[''/'', ''tmp''] \<mapsto> Dir, [''/'', ''tmp'', ''out''] \<mapsto> Dir]"
  have d: "obsidian_directory ?a = Some ''/tmp/out''" by (simp add: sample_args_def)
  have ty: "zotero_library_type ?a = ''user'' \<or> zotero_library_type ?a = ''group''"
    by (simp add: sample_args_def)
  have p: "Path ''/tmp/out'' = ?p" by (simp add: Path_def)
  have n1: "\<not> exists (fs ?w1) (Path ''/tmp/out'')"
    by (simp add: p exists_def node_at_def sample_world_def)
  have m1: "mkdir (fs ?w1) (Path ''/tmp/out'') = Inr ?f1"
    by (simp add: p sample_world_def mkdir_parents mkdir_under node_at_def parent_def)
  have wf1: "wf_fs (fs ?w1)"
    by (simp add: wf_fs_def node_at_def sample_world_def parent_def)
  have n2: "\<not> exists (fs ?w2) (Path ''/tmp/out'')"
    by (simp add: p exists_def node_at_def sample_world_def)
  have m2: "mkdir (fs ?w2) (Path ''/tmp/out'') = Inl NotADirectoryError"
    by (simp add: p sample_world_def mkdir_under node_at_def parent_def)
  have n3: "exists (fs ?w3) (Path ''/tmp/out'') \<and> \<not> is_dir (fs ?w3) (Path ''/tmp/out'')"
    by (simp add: p exists_def is_dir_def node_at_def sample_world_def)
  from output_directory_is_validated [OF d, of ?w1 ?E] n1 ty m1 wf1
  have v: "validate_args ?a ?w1 =
      (Inr (), ?w1\<lparr>fs := ?f1, trace := trace ?w1 @
         [FsExists (Path ''/tmp/out''), FsMkdir (Path ''/tmp/out''),
          Log INFO (CreatedDirectory ''/tmp/out'')]\<rparr>)"
    and up: "\<forall>k. is_dir ?f1 ((parent ^^ k) (Path ''/tmp/out''))"
    by blast+
  from up have "is_dir ?f1 ((parent ^^ 1) (Path ''/tmp/out''))" by (rule spec)
  then have above: "is_dir ?f1 [''/'', ''tmp'']" by (simp add: p parent_def)
  from output_directory_is_validated [OF d, of ?w2 ?E] n2 m2
  obtain evs2 where r2: "run ?a ?E ?w2 = (Exit 1, ?w2\<lparr>trace := trace ?w2 @ evs2\<rparr>)"
    and s2: "CallSync \<notin> set evs2"
    by blast
  from output_directory_is_validated [OF d, of ?w3 ?E] n3
  obtain evs3 where r3: "run ?a ?E ?w3 = (Exit 1, ?w3\<lparr>trace := trace ?w3 @ evs3\<rparr>)"
    and s3: "CallSync \<notin> set evs3"
    by blast
  have e2: "\<exists>evs. run ?a ?E ?w2 =
      (Exit 1, \<lparr>fs = [[''/'', ''tmp''] \<mapsto> File ''x''], console = [], trace = evs\<rparr>) \<and>
      CallSync \<notin> set evs"
    using r2 s2 by (intro exI [of _ evs2]) (simp add: sample_world_def)
  have e3: "\<exists>evs. run ?a ?E ?w3 =
      (Exit 1, \<lparr>fs = [[''/'', ''tmp''] \<mapsto> Dir, [''/'', ''tmp'', ''out''] \<mapsto> File ''x''],
                console = [], trace = evs\<rparr>) \<and>
      CallSync \<notin> set evs"
    using r3 s3 by (intro exI [of _ evs3]) (simp add: sample_world_def)
  from v have v': "validate_args ?a ?w1 =
     (Inr (), \<lparr>fs = ?f1, console = [],
               trace = [FsExists ?p, FsMkdir ?p, Log INFO (CreatedDirectory ''/tmp/out'')]\<rparr>)"
    by (simp add: p sample_world_def)
  from v' above e2 e3 show ?thesis by (intro conjI)
qed

section \<open>Runs that write no file\<close>

lemma untouched_refl: "untouched w w"
  by (simp add: untouched_def)

lemma untouched_trans:
  assumes "untouched w w1" and "untouched w1 w2"
  shows "untouched w w2"
proof -
  from assms(1) obtain e1 where a: "fs w1 = fs w" "trace w1 = trace w @ e1"
    "\<not> list_ex is_write e1" "\<not> list_ex is_fs_check e1"
    by (auto simp: untouched_def)
  from assms(2) obtain e2 where b: "fs w2 = fs w1" "trace w2 = trace w1 @ e2"
    "\<not> list_ex is_write e2" "\<not> list_ex is_fs_check e2"
    by (auto simp: untouched_def)
  have "trace w2 = trace w @ (e1 @ e2)" using a b by simp
  moreover have "\<not> list_ex is_write (e1 @ e2)" "\<not> list_ex is_fs_check (e1 @ e2)"
    using a b by (auto simp: list_ex_iff)
  ultimately show ?thesis
    unfolding untouched_def using a(1) b(1) by (intro conjI exI [of _ "e1 @ e2"]) simp_all
qed

lemma untouched_events:
  assumes "fs w' = fs w" and "trace w' = trace w @ evs"
    and "\<not> list_ex is_write evs" and "\<not> list_ex is_fs_check evs"
  shows "untouched w w'"
  using assms unfolding untouched_def by blast

lemma untouched_logger: "untouched w (logger l m w)"
  by (rule untouched_events [of _ _ "[Log l m]"]) simp_all




lemma bind_untouched:
  assumes "untouched w (snd m)"
    and "\<And>x w1. m = (Inr x, w1) \<Longrightarrow> untouched w1 (snd (f x w1))"
  shows "untouched w (snd (bind m f))"
proof (cases m)
  case (Pair r w1)
  show ?thesis
  proof (cases r)
    case (Inl e)
    with Pair assms(1) show ?thesis by simp
  next
    case (Inr x)
    with Pair assms show ?thesis by (auto intro: untouched_trans)
  qed
qed

lemma read_line_untouched: "untouched w (snd (read_line q w))"
proof (cases "console w")
  case Nil
  then show ?thesis
    by (auto simp: read_line_def intro!: untouched_events [of _ _ "[Prompted q]"])
next
  case (Cons r rs)
  then show ?thesis
    by (auto simp: read_line_def intro!: untouched_events [of _ _ "[Prompted q]"])
qed

text \<open>Prompting only reads the console and logs.\<close>

lemma ask_untouched:
  "untouched w (snd (bind (read_line q w) (\<lambda>k w'.
      if P k then sys_exit 1 (logger l m w') else (Inr (g k), w'))))"
  by (rule bind_untouched [OF read_line_untouched])
     (simp add: untouched_logger untouched_refl)

lemma get_interactive_input_untouched: "untouched w (snd (get_interactive_input a w))"
  unfolding get_interactive_input_def
  apply (rule bind_untouched)
   apply (simp add: ask_untouched untouched_refl)
  apply (rule bind_untouched)
   apply (simp add: ask_untouched untouched_refl)
  apply (rule bind_untouched)
   apply (simp add: ask_untouched untouched_refl)
  apply (simp add: untouched_refl)
  apply (rule impI)
  apply (rule bind_untouched [OF read_line_untouched])
  apply (simp add: untouched_refl)
  done

lemma get_interactive_input_keeps:
  assumes "get_interactive_input a0 w = (Inr a, w')"
  shows "dry_run a = dry_run a0 \<and>
         (truthy (obsidian_directory a0) \<longrightarrow> obsidian_directory a = obsidian_directory a0)"
  using assms
  by (auto simp: get_interactive_input_def bind_def read_line_def
           split: if_splits list.splits sum.splits prod.splits)



lemma validate_args_untouched:
  assumes "\<not> truthy (obsidian_directory a)"
  shows "untouched w (snd (validate_args a w))"
  using assms by (auto simp: validate_args_def untouched_logger untouched_refl)

lemma process_paper_dry:
  assumes "\<not> truthy od"
  shows "untouched w (snd (process_paper ext od row n w))"
proof -
  obtain i paper where row: "row = (i, paper)" by (cases row)
  show ?thesis
  proof (cases "usable_fulltext paper")
    case False
    then show ?thesis
      by (simp add: row process_paper_unusable no_fulltext_def untouched_logger)
  next
    case True
    then obtain t where ft: "map_of paper ''fulltext'' = Some (PStr t)" "strip t \<noteq> []"
      by (auto simp: usable_fulltext_iff)
    show ?thesis
    proof (cases "map_of paper ''title''")
      case None
      then show ?thesis by (simp add: row process_paper_no_title [OF True] untouched_refl)
    next
      case (Some title)
      then show ?thesis
        using assms by (simp add: row process_paper_usable [OF ft Some] untouched_logger)
    qed
  qed
qed






lemma snd_run: "snd (run a ext w) = snd (main a ext w)"
  by (simp add: run_def split: prod.splits)




section \<open>Running the export again\<close>

lemma same_dirs_refl: "same_dirs f f"
  by (simp add: same_dirs_def)

lemma same_dirs_trans: "same_dirs f g \<Longrightarrow> same_dirs g h \<Longrightarrow> same_dirs f h"
  by (simp add: same_dirs_def)

lemma same_dirs_is_dir: "same_dirs f g \<Longrightarrow> is_dir f p = is_dir g p"
  by (simp add: same_dirs_def is_dir_def)

lemma open_write_fails:
  assumes "is_dir f p \<or> \<not> is_dir f (parent p)"
  shows "\<exists>e. open_write f p text = Inl e"
  using assms
  by (auto simp: open_write_def is_dir_def split: option.splits node.splits)

lemma node_at_write:
  assumes "\<not> is_dir f p"
  shows "(node_at (f(p \<mapsto> File text)) q = Some Dir) = (q \<noteq> p \<and> node_at f q = Some Dir)"
proof (cases "q = p")
  case True
  from assms have "p \<noteq> []" "p \<noteq> [''/'']" by (auto simp: is_dir_def)
  with True show ?thesis by (simp add: node_at_def)
next
  case False
  then show ?thesis by (simp add: node_at_def)
qed

lemma same_dirs_write:
  assumes "same_dirs f g" and "\<not> is_dir f p"
  shows "same_dirs (f(p \<mapsto> File text)) (g(p \<mapsto> File text))"
proof -
  from assms have g: "\<not> is_dir g p" by (simp add: same_dirs_is_dir)
  have "(node_at (f(p \<mapsto> File text)) q = Some Dir) =
        (node_at (g(p \<mapsto> File text)) q = Some Dir)" for q
    using assms(1) by (simp only: node_at_write [OF assms(2)] node_at_write [OF g] same_dirs_def)
  then show ?thesis by (simp only: same_dirs_def) blast
qed

lemma same_dirs_after_write:
  assumes "\<not> is_dir f p"
  shows "same_dirs f (f(p \<mapsto> File text))"
proof -
  have "(node_at f q = Some Dir) = (node_at (f(p \<mapsto> File text)) q = Some Dir)" for q
    using assms by (cases "q = p") (simp_all add: node_at_write is_dir_def)
  then show ?thesis by (simp only: same_dirs_def) blast
qed

lemma same_eventsI:
  assumes "trace w' = trace w @ ew" and "trace v' = trace v @ ev"
    and "map forget_errno ew = map forget_errno ev"
  shows "same_events w w' v v'"
  using assms unfolding same_events_def by blast

lemma same_events_refl: "same_events w w v v"
  by (rule same_eventsI [of _ _ "[]" _ _ "[]"]) simp_all

lemma same_events_trans:
  assumes "same_events w w1 v v1" and "same_events w1 w2 v1 v2"
  shows "same_events w w2 v v2"
proof -
  from assms(1) obtain ew ev where a: "trace w1 = trace w @ ew" "trace v1 = trace v @ ev"
    "map forget_errno ew = map forget_errno ev"
    unfolding same_events_def by blast
  from assms(2) obtain ew' ev' where b: "trace w2 = trace w1 @ ew'" "trace v2 = trace v1 @ ev'"
    "map forget_errno ew' = map forget_errno ev'"
    unfolding same_events_def by blast
  show ?thesis
    by (rule same_eventsI [of _ _ "ew @ ew'" _ _ "ev @ ev'"]) (simp_all add: a b)
qed

lemma same_events_added:
  assumes "trace w' = trace w @ evs" and "trace v' = trace v @ evs"
  shows "same_events w w' v v'"
  using assms by (rule same_eventsI) simp

lemma in_stepI:
  assumes "same_dirs (fs w') (fs v')"
    and "\<And>p. fs w' p = fs v' p \<or> (fs w' p = fs w p \<and> fs v' p = fs v p)"
    and "same_events w w' v v'"
  shows "in_step w v w' v'"
  using assms by (simp add: in_step_def)

lemma in_step_same:
  assumes "same_dirs (fs w) (fs v)" and "fs w' = fs w" and "fs v' = fs v"
    and "same_events w w' v v'"
  shows "in_step w v w' v'"
  using assms by (simp add: in_step_def)

lemma in_step_trans:
  assumes "in_step w v w1 v1" and "in_step w1 v1 w' v'"
  shows "in_step w v w' v'"
proof (rule in_stepI)
  show "same_dirs (fs w') (fs v')" using assms(2) by (simp add: in_step_def)
next
  fix p
  from assms(1) have a: "fs w1 p = fs v1 p \<or> (fs w1 p = fs w p \<and> fs v1 p = fs v p)"
    by (simp add: in_step_def)
  from assms(2) have b: "fs w' p = fs v' p \<or> (fs w' p = fs w1 p \<and> fs v' p = fs v1 p)"
    by (simp add: in_step_def)
  from a b show "fs w' p = fs v' p \<or> (fs w' p = fs w p \<and> fs v' p = fs v p)"
    by auto
next
  from assms have "same_events w w1 v v1" "same_events w1 w' v1 v'"
    by (simp_all add: in_step_def)
  then show "same_events w w' v v'" by (rule same_events_trans)
qed

text \<open>Whether a save succeeds, and what it writes, depends on the directories only.\<close>

lemma save_paper_sim:
  assumes "same_dirs (fs w) (fs v)"
  shows "\<exists>r w' v'. save_paper ext d title text n w = (r, w') \<and>
           save_paper ext d title text n v = (r, v') \<and> in_step w v w' v'"
proof (cases "sanitize_filename ext title")
  case (Inl e)
  show ?thesis
  proof (cases "is_OSError e")
    case True
    have "in_step w v
        (w\<lparr>trace := trace w @ [CallSanitize title, Log ERROR (FailedToSave title e)]\<rparr>)
        (v\<lparr>trace := trace v @ [CallSanitize title, Log ERROR (FailedToSave title e)]\<rparr>)"
      by (rule in_step_same [OF assms]) (simp_all add: same_events_added)
    with Inl True show ?thesis
      by (simp add: save_paper_def Let_def emit_def logger_def)
  next
    case False
    have "in_step w v (w\<lparr>trace := trace w @ [CallSanitize title]\<rparr>)
        (v\<lparr>trace := trace v @ [CallSanitize title]\<rparr>)"
      by (rule in_step_same [OF assms]) (simp_all add: same_events_added)
    with Inl False show ?thesis
      by (simp add: save_paper_def Let_def emit_def)
  qed
next
  case (Inr name)
  let ?p = "target d name"
  show ?thesis
  proof (cases "\<not> is_dir (fs w) ?p \<and> is_dir (fs w) (parent ?p)")
    case True
    then have "\<not> is_dir (fs v) ?p \<and> is_dir (fs v) (parent ?p)"
      using same_dirs_is_dir [OF assms] by simp
    then have ov: "open_write (fs v) ?p text = Inr ((fs v)(?p \<mapsto> File text))"
      by (simp add: is_dir_open_write)
    from True have ow: "open_write (fs w) ?p text = Inr ((fs w)(?p \<mapsto> File text))"
      by (simp add: is_dir_open_write)
    let ?evs = "[CallSanitize title, FsWrite ?p text, Log INFO (SavedFulltext title ?p)]"
    have "in_step w v (w\<lparr>fs := (fs w)(?p \<mapsto> File text), trace := trace w @ ?evs\<rparr>)
        (v\<lparr>fs := (fs v)(?p \<mapsto> File text), trace := trace v @ ?evs\<rparr>)"
    proof (rule in_stepI)
      show "same_dirs (fs (w\<lparr>fs := (fs w)(?p \<mapsto> File text), trace := trace w @ ?evs\<rparr>))
          (fs (v\<lparr>fs := (fs v)(?p \<mapsto> File text), trace := trace v @ ?evs\<rparr>))"
        using assms True by (simp add: same_dirs_write)
    qed (simp_all add: same_events_added)
    then show ?thesis
      by (simp add: save_paper_written [OF Inr ow] save_paper_written [OF Inr ov])
  next
    case False
    then have fw: "is_dir (fs w) ?p \<or> \<not> is_dir (fs w) (parent ?p)" by blast
    then have fv: "is_dir (fs v) ?p \<or> \<not> is_dir (fs v) (parent ?p)"
      using same_dirs_is_dir [OF assms] by simp
    from open_write_fails [OF fw] obtain e where ow: "open_write (fs w) ?p text = Inl e" ..
    from open_write_fails [OF fv] obtain e' where ov: "open_write (fs v) ?p text = Inl e'" ..
    have "in_step w v
        (w\<lparr>trace := trace w @ [CallSanitize title, FsWrite ?p text,
                                 Log ERROR (FailedToSave title (OSError e))]\<rparr>)
        (v\<lparr>trace := trace v @ [CallSanitize title, FsWrite ?p text,
                                 Log ERROR (FailedToSave title (OSError e'))]\<rparr>)"
      by (rule in_step_same [OF assms])
         (simp_all add: same_eventsI [of _ _ "[CallSanitize title, FsWrite ?p text,
              Log ERROR (FailedToSave title (OSError e))]" _ _ "[CallSanitize title,
              FsWrite ?p text, Log ERROR (FailedToSave title (OSError e'))]"])
    then show ?thesis
      by (simp add: save_paper_oserror [OF Inr ow] save_paper_oserror [OF Inr ov])
  qed
qed

lemma process_paper_sim:
  assumes "same_dirs (fs w) (fs v)"
  shows "\<exists>r w' v'. process_paper ext od row n w = (r, w') \<and>
           process_paper ext od row n v = (r, v') \<and> in_step w v w' v'"
proof -
  obtain i paper where row: "row = (i, paper)" by (cases row)
  have logged: "in_step w v (logger l m w) (logger l m v)" for l m
    by (rule in_step_same [OF assms]) (simp_all add: same_events_added)
  have still: "in_step w v w v"
    by (rule in_step_same [OF assms]) (simp_all add: same_events_refl)
  show ?thesis
  proof (cases "usable_fulltext paper")
    case False
    then show ?thesis
      using logged by (simp add: row process_paper_unusable no_fulltext_def)
  next
    case True
    then obtain t where ft: "map_of paper ''fulltext'' = Some (PStr t)" "strip t \<noteq> []"
      by (auto simp: usable_fulltext_iff)
    show ?thesis
    proof (cases "map_of paper ''title''")
      case None
      then show ?thesis
        using still by (simp add: row process_paper_no_title [OF True])
    next
      case (Some title)
      show ?thesis
      proof (cases "truthy od")
        case False
        then show ?thesis
          using logged by (simp add: row process_paper_usable [OF ft Some])
      next
        case True
        then show ?thesis
          using save_paper_sim [OF assms, of ext "the od" title "document title t" n]
          by (simp add: row process_paper_usable [OF ft Some])
      qed
    qed
  qed
qed

lemma process_rows_sim:
  assumes "same_dirs (fs w) (fs v)"
  shows "\<exists>r w' v'. process_rows ext od df n w = (r, w') \<and>
           process_rows ext od df n v = (r, v') \<and> in_step w v w' v'"
  using assms
proof (induction df arbitrary: n w v)
  case Nil
  have "in_step w v w v"
    by (rule in_step_same [OF Nil]) (simp_all add: same_events_refl)
  then show ?case by simp
next
  case (Cons row rest)
  from process_paper_sim [OF Cons.prems, of ext od row n]
  obtain r1 w1 v1 where sw: "process_paper ext od row n w = (r1, w1)"
    and sv: "process_paper ext od row n v = (r1, v1)" and st: "in_step w v w1 v1"
    by blast
  show ?case
  proof (cases r1)
    case (Inl e)
    then show ?thesis using st by (simp add: sw sv)
  next
    case (Inr m)
    from st have "same_dirs (fs w1) (fs v1)" by (simp add: in_step_def)
    from Cons.IH [OF this, of m]
    obtain r w' v' where "process_rows ext od rest m w1 = (r, w')"
      and "process_rows ext od rest m v1 = (r, v')" and "in_step w1 v1 w' v'"
      by blast
    then show ?thesis
      using in_step_trans [OF st] by (simp add: sw sv Inr)
  qed
qed

text \<open>The export creates and removes no directory.\<close>

lemma save_paper_same_dirs:
  assumes "save_paper ext d title text n w = (r, w')"
  shows "same_dirs (fs w) (fs w')"
proof (cases "sanitize_filename ext title")
  case (Inl e)
  with assms show ?thesis
    by (auto simp: save_paper_def Let_def same_dirs_refl split: if_splits)
next
  case (Inr name)
  show ?thesis
  proof (cases "open_write (fs w) (target d name) text")
    case (Inl e)
    with assms show ?thesis
      by (auto simp: save_paper_oserror [OF Inr Inl] same_dirs_refl)
  next
    case ok: (Inr f')
    then have "\<not> is_dir (fs w) (target d name)"
      by (auto simp: open_write_def is_dir_def split: if_splits)
    moreover from ok have "f' = (fs w)(target d name \<mapsto> File text)"
      by (auto simp: open_write_def split: if_splits option.splits node.splits)
    ultimately show ?thesis
      using assms by (auto simp: save_paper_written [OF Inr ok] same_dirs_after_write)
  qed
qed

lemma process_paper_same_dirs:
  assumes "process_paper ext od row n w = (r, w')"
  shows "same_dirs (fs w) (fs w')"
proof -
  obtain i paper where row: "row = (i, paper)" by (cases row)
  show ?thesis
  proof (cases "usable_fulltext paper")
    case False
    with assms show ?thesis
      by (auto simp: row process_paper_unusable no_fulltext_def same_dirs_refl)
  next
    case True
    then obtain t where ft: "map_of paper ''fulltext'' = Some (PStr t)" "strip t \<noteq> []"
      by (auto simp: usable_fulltext_iff)
    show ?thesis
    proof (cases "map_of paper ''title''")
      case None
      with assms show ?thesis
        by (auto simp: row process_paper_no_title [OF True] same_dirs_refl)
    next
      case (Some title)
      with assms show ?thesis
        by (auto simp: row process_paper_usable [OF ft Some] same_dirs_refl
                 split: if_splits intro: save_paper_same_dirs)
    qed
  qed
qed

lemma process_rows_same_dirs:
  assumes "process_rows ext od df n w = (r, w')"
  shows "same_dirs (fs w) (fs w')"
  using assms
proof (induction df arbitrary: n w)
  case Nil
  then show ?case by (auto simp: same_dirs_refl)
next
  case (Cons row rest)
  obtain r1 w1 where step: "process_paper ext od row n w = (r1, w1)"
    by (cases "process_paper ext od row n w")
  note d = process_paper_same_dirs [OF step]
  show ?case
  proof (cases r1)
    case (Inl e)
    with Cons.prems step d show ?thesis by auto
  next
    case (Inr m)
    with Cons.prems step have "process_rows ext od rest m w1 = (r, w')" by simp
    from same_dirs_trans [OF d Cons.IH [OF this]] show ?thesis .
  qed
qed

text \<open>
  The loop run again, from any world whose file system is the one the first run left:
  same result (the processed count, or the exception), same file system, same events.
\<close>

lemma process_rows_twice:
  assumes "process_rows ext od df n w = (r, w1)" and "fs v = fs w1"
  shows "\<exists>v'. process_rows ext od df n v = (r, v') \<and> fs v' = fs w1 \<and>
              same_events w w1 v v'"
proof -
  have "same_dirs (fs w) (fs v)"
    using process_rows_same_dirs [OF assms(1)] assms(2) by simp
  from process_rows_sim [OF this, of ext od df n]
  obtain r' w' v' where a: "process_rows ext od df n w = (r', w')"
    and b: "process_rows ext od df n v = (r', v')" and st: "in_step w v w' v'"
    by blast
  from a assms have eq: "r' = r" "w' = w1" by simp_all
  have "fs v' p = fs w1 p" for p
  proof -
    from st have "fs w1 p = fs v' p \<or> (fs w1 p = fs w p \<and> fs v' p = fs v p)"
      by (simp add: in_step_def eq)
    then show ?thesis using assms(2) by auto
  qed
  then have "fs v' = fs w1" by (rule ext)
  moreover from st have "same_events w w1 v v'" by (simp add: in_step_def eq)
  ultimately show ?thesis using b eq by simp
qed

lemma process_papers_try_twice:
  assumes "process_papers_try ext ck od w = (r, w1)" and "fs v = fs w1"
  shows "\<exists>v'. process_papers_try ext ck od v = (r, v') \<and> fs v' = fs w1 \<and>
              same_events w w1 v v'"
proof (cases "sync_zotero_collection ext ck")
  case (Inl e)
  have "same_events w (emit CallSync w) v (emit CallSync v)"
    by (rule same_events_added [of _ _ "[CallSync]"]) simp_all
  with assms Inl show ?thesis by (auto simp: process_papers_try_def)
next
  case sync: (Inr res)
  let ?got = "\<lambda>w. emit CallGetDf (logger INFO (SyncResult res) (emit CallSync w))"
  have got: "same_events w (?got w) v (?got v)"
    by (rule same_events_added [of _ _ "[CallSync, Log INFO (SyncResult res), CallGetDf]"])
       simp_all
  have logged: "same_events x (logger l m x) y (logger l m y)" for x y l m
    by (rule same_events_added [of _ _ "[Log l m]"]) simp_all
  show ?thesis
  proof (cases "get_library_df ext ck")
    case (Inl e)
    with assms sync got show ?thesis by (auto simp: process_papers_try_def Let_def)
  next
    case (Inr df)
    show ?thesis
    proof (cases "df_empty df")
      case True
      from same_events_trans [OF got logged]
      have "same_events w (logger WARNING NoPapersFound (?got w))
              v (logger WARNING NoPapersFound (?got v))" .
      with assms sync Inr True show ?thesis by (auto simp: process_papers_try_def Let_def)
    next
      case False
      let ?start = "\<lambda>w. logger INFO (FoundPapers (length df)) (?got w)"
      have start: "same_events w (?start w) v (?start v)"
        by (rule same_events_trans [OF got logged])
      have unfold: "process_papers_try ext ck od u =
          bind (process_rows ext od df 0 (?start u))
            (\<lambda>processed_count w2.
               (Inr (), logger INFO (SuccessfullyProcessed processed_count) w2))" for u
        using sync Inr False by (simp add: process_papers_try_def Let_def)
      obtain r1 u1 where first: "process_rows ext od df 0 (?start w) = (r1, u1)"
        by (cases "process_rows ext od df 0 (?start w)")
      from assms(1) first have fs1: "fs w1 = fs u1"
        by (cases r1) (auto simp: unfold)
      with assms(2) have "fs (?start v) = fs u1" by simp
      from process_rows_twice [OF first this]
      obtain v' where second: "process_rows ext od df 0 (?start v) = (r1, v')"
        and fs2: "fs v' = fs u1" and ev: "same_events (?start w) u1 (?start v) v'"
        by blast
      from same_events_trans [OF start ev] have ev1: "same_events w u1 v v'" .
      show ?thesis
      proof (cases r1)
        case (Inl e)
        with assms(1) first second fs1 fs2 ev1 show ?thesis by (auto simp: unfold)
      next
        case (Inr m)
        from same_events_trans [OF ev1 logged]
        have "same_events w (logger INFO (SuccessfullyProcessed m) u1)
                v (logger INFO (SuccessfullyProcessed m) v')" .
        with Inr assms(1) first second fs1 fs2 show ?thesis by (auto simp: unfold)
      qed
    qed
  qed
qed

lemma process_papers_twice:
  assumes "process_papers ext ck od w = (r, w1)" and "fs v = fs w1"
  shows "\<exists>v'. process_papers ext ck od v = (r, v') \<and> fs v' = fs w1 \<and>
              same_events w w1 v v'"
proof -
  obtain r0 u where first: "process_papers_try ext ck od w = (r0, u)"
    by (cases "process_papers_try ext ck od w")
  from assms(1) first have fs1: "fs w1 = fs u"
    by (auto simp: process_papers_def split: sum.splits if_splits)
  with assms(2) have "fs v = fs u" by simp
  from process_papers_try_twice [OF first this]
  obtain v0 where second: "process_papers_try ext ck od v = (r0, v0)" and fs2: "fs v0 = fs u"
    and ev: "same_events w u v v0"
    by blast
  have logged: "same_events w (logger l m u) v (logger l m v0)" for l m
    by (rule same_events_trans [OF ev same_events_added [of _ _ "[Log l m]"]]) simp_all
  show ?thesis
  proof (cases r0)
    case (Inr x)
    with assms(1) first second fs1 fs2 ev show ?thesis
      by (auto simp: process_papers_def)
  next
    case (Inl e)
    with assms(1) first second fs1 fs2 ev logged show ?thesis
      by (cases "is_Exception e") (auto simp: process_papers_def)
  qed
qed

text \<open>
  C9. Run the export, then run it again on the file system the first run left, with the
  same collaborators (so the same result table) and the same output directory. The second
  run ends as the first did and leaves the file system exactly as the first run left it:
  the same files, the same contents, nothing besides. And it does the same things in the
  same order: the events it adds are those the first run added (each attempted write with
  its path and text, each record saved, each record skipped, the processed count), up to
  the kind of \<open>OSError\<close> a failed write reports. So a record saved by the first run is
  saved again by the second, over the file that is now there: nothing checks whether the
  target exists, and no second file is made.
\<close>

theorem export_is_idempotent:
  assumes "process_papers ext ck od w = (r, w1)"
  shows "\<exists>w2 evs1 evs2.
           process_papers ext ck od w1 = (r, w2) \<and> fs w2 = fs w1 \<and>
           trace w1 = trace w @ evs1 \<and> trace w2 = trace w1 @ evs2 \<and>
           map forget_errno evs2 = map forget_errno evs1"
proof -
  from process_papers_twice [OF assms refl]
  obtain w2 where "process_papers ext ck od w1 = (r, w2)" "fs w2 = fs w1"
    and "same_events w w1 w1 w2" by blast
  then show ?thesis unfolding same_events_def by metis
qed

text \<open>
  Paper A and Paper B exported to the existing directory \<open>/tmp/out\<close>, twice: the second
  run writes \<open>Paper A.md\<close> again, over the file of the first run, and counts it.
\<close>

theorem export_is_idempotent_witness:
  "\<exists>w2. process_papers (sample_extern [(0, paper_a), (1, paper_b)]) (Some ''COLL'')
            (Some ''/tmp/out'')
            (snd (process_papers (sample_extern [(0, paper_a), (1, paper_b)]) (Some ''COLL'')
                    (Some ''/tmp/out'')
                    (sample_world [[''/'', ''tmp'', ''out''] \<mapsto> Dir] []))) = (Inr (), w2) \<and>
        fs w2 = [[''/'', ''tmp'', ''out''] \<mapsto> Dir,
                 [''/'', ''tmp'', ''out'', ''Paper A.md''] \<mapsto>
                   File (''# Paper A'' @ [CHR 0x0A, CHR 0x0A] @ ''Body A'')] \<and>
        drop 9 (trace w2) =
          [CallSync, Log INFO (SyncResult ''synced''), CallGetDf, Log INFO (FoundPapers 2),
           CallSanitize (PStr ''Paper A''),
           FsWrite [''/'', ''tmp'', ''out'', ''Paper A.md'']
             (''# Paper A'' @ [CHR 0x0A, CHR 0x0A] @ ''Body A''),
           Log INFO (SavedFulltext (PStr ''Paper A'') [''/'', ''tmp'', ''out'', ''Paper A.md'']),
           Log WARNING (NoFulltextFound (Inr (PStr ''Paper B''))),
           Log INFO (SuccessfullyProcessed 1)]"
proof -
  let ?E = "sample_extern [(0, paper_a), (1, paper_b)]"
  let ?W = "sample_world [[''/'', ''tmp'', ''out''] \<mapsto> Dir] []"
  let ?f1 = "[[''/'', ''tmp'', ''out''] \<mapsto> Dir,
             [''/'', ''tmp'', ''out'', ''Paper A.md''] \<mapsto>
               File (''# Paper A'' @ [CHR 0x0A, CHR 0x0A] @ ''Body A'')]"
  let ?evs = "[CallSync, Log INFO (SyncResult ''synced''), CallGetDf, Log INFO (FoundPapers 2),
           CallSanitize (PStr ''Paper A''),
           FsWrite [''/'', ''tmp'', ''out'', ''Paper A.md'']
             (''# Paper A'' @ [CHR 0x0A, CHR 0x0A] @ ''Body A''),
           Log INFO (SavedFulltext (PStr ''Paper A'') [''/'', ''tmp'', ''out'', ''Paper A.md'']),
           Log WARNING (NoFulltextFound (Inr (PStr ''Paper B''))),
           Log INFO (SuccessfullyProcessed 1)]"
  let ?W1 = "\<lparr>fs = ?f1, console = [], trace = ?evs\<rparr>"
  have h: "process_papers ?E (Some ''COLL'') (Some ''/tmp/out'') ?W = (Inr (), ?W1)"
    by (simp add: run_defs)
  have again: "process_papers ?E (Some ''COLL'') (Some ''/tmp/out'') ?W1 =
      (Inr (), \<lparr>fs = ?f1, console = [], trace = ?evs @ ?evs\<rparr>)"
    by (simp add: run_defs)
  from export_is_idempotent [OF h]
  obtain w2 where r: "process_papers ?E (Some ''COLL'') (Some ''/tmp/out'') ?W1 = (Inr (), w2)"
    and f: "fs w2 = fs ?W1"
    by blast
  from r again have "trace w2 = ?evs @ ?evs" by simp
  then have "drop 9 (trace w2) = ?evs" by simp
  with r f show ?thesis by (simp add: h)
qed

text \<open>A file that was written can be written again: the new text replaces the old one.\<close>

lemma open_write_overwrites:
  assumes "open_write f p text = Inr f'"
  shows "open_write f' p text' = Inr (f'(p \<mapsto> File text')) \<and>
         f'(p \<mapsto> File text') = f(p \<mapsto> File text')"
proof -
  from assms have d: "\<not> is_dir f p" "is_dir f (parent p)"
    and f': "f' = f(p \<mapsto> File text)"
    by (auto simp: open_write_def is_dir_def split: if_splits option.splits node.splits)
  from d have "parent p \<noteq> p" by auto
  then have "\<not> is_dir f' p" "is_dir f' (parent p)"
    using d by (simp_all add: f' is_dir_def node_at_write)
  then show ?thesis by (simp add: is_dir_open_write f')
qed

section \<open>A directory entered at the prompt\<close>

lemma no_checksI:
  "trace w' = trace w @ evs \<Longrightarrow> \<not> list_ex is_fs_check evs \<Longrightarrow> no_checks w w'"
  unfolding no_checks_def by blast

lemma no_checks_refl: "no_checks w w"
  by (rule no_checksI [of _ _ "[]"]) simp_all

lemma no_checks_trans:
  assumes "no_checks w w1" and "no_checks w1 w2"
  shows "no_checks w w2"
proof -
  from assms(1) obtain e1 where a: "trace w1 = trace w @ e1" "\<not> list_ex is_fs_check e1"
    unfolding no_checks_def by blast
  from assms(2) obtain e2 where b: "trace w2 = trace w1 @ e2" "\<not> list_ex is_fs_check e2"
    unfolding no_checks_def by blast
  show ?thesis
    by (rule no_checksI [of _ _ "e1 @ e2"]) (use a b in \<open>auto simp: list_ex_iff\<close>)
qed

lemma untouched_no_checks: "untouched w w' \<Longrightarrow> no_checks w w'"
  unfolding untouched_def no_checks_def by blast

lemma no_checks_logger: "no_checks w w' \<Longrightarrow> no_checks w (logger l m w')"
  by (rule no_checks_trans [OF _ no_checksI [of _ _ "[Log l m]"]]) simp_all

lemma no_checks_emit: "\<not> is_fs_check e \<Longrightarrow> no_checks w w' \<Longrightarrow> no_checks w (emit e w')"
  by (rule no_checks_trans [OF _ no_checksI [of _ _ "[e]"]]) simp_all

lemma save_paper_no_checks: "no_checks w (snd (save_paper ext d title text n w))"
proof (cases "sanitize_filename ext title")
  case (Inl e)
  have "no_checks w (emit (CallSanitize title) w)"
    by (rule no_checks_emit [OF _ no_checks_refl]) simp
  with Inl no_checks_logger [OF this] show ?thesis
    by (simp add: save_paper_def Let_def)
next
  case (Inr name)
  show ?thesis
  proof (cases "open_write (fs w) (target d name) text")
    case (Inl e)
    show ?thesis
      unfolding save_paper_oserror [OF Inr Inl]
      by (rule no_checksI [of _ _ "[CallSanitize title, FsWrite (target d name) text,
            Log ERROR (FailedToSave title (OSError e))]"]) simp_all
  next
    case ok: (Inr f')
    show ?thesis
      unfolding save_paper_written [OF Inr ok]
      by (rule no_checksI [of _ _ "[CallSanitize title, FsWrite (target d name) text,
            Log INFO (SavedFulltext title (target d name))]"]) simp_all
  qed
qed

lemma process_paper_no_checks: "no_checks w (snd (process_paper ext od row n w))"
proof (cases "truthy od")
  case False
  then show ?thesis by (simp add: untouched_no_checks process_paper_dry)
next
  case od: True
  obtain i paper where row: "row = (i, paper)" by (cases row)
  show ?thesis
  proof (cases "usable_fulltext paper")
    case False
    then show ?thesis
      by (simp add: row process_paper_unusable no_fulltext_def no_checks_logger no_checks_refl)
  next
    case True
    then obtain t where ft: "map_of paper ''fulltext'' = Some (PStr t)" "strip t \<noteq> []"
      by (auto simp: usable_fulltext_iff)
    show ?thesis
    proof (cases "map_of paper ''title''")
      case None
      then show ?thesis by (simp add: row process_paper_no_title [OF True] no_checks_refl)
    next
      case (Some title)
      then show ?thesis
        using od by (simp add: row process_paper_usable [OF ft Some] save_paper_no_checks)
    qed
  qed
qed

lemma process_rows_no_checks: "no_checks w (snd (process_rows ext od df n w))"
proof (induction df arbitrary: n w)
  case Nil
  show ?case by (simp add: no_checks_refl)
next
  case (Cons row rest)
  obtain r1 w1 where step: "process_paper ext od row n w = (r1, w1)"
    by (cases "process_paper ext od row n w")
  from process_paper_no_checks [of w ext od row n] step have u: "no_checks w w1" by simp
  show ?case
  proof (cases r1)
    case (Inl e)
    with step u show ?thesis by simp
  next
    case (Inr m)
    with step no_checks_trans [OF u Cons.IH [of w1 m]] show ?thesis by simp
  qed
qed

lemma process_papers_try_no_checks: "no_checks w (snd (process_papers_try ext ck od w))"
proof (cases "sync_zotero_collection ext ck")
  case (Inl e)
  then show ?thesis by (simp add: process_papers_try_def no_checks_emit no_checks_refl)
next
  case sync: (Inr res)
  let ?w1 = "emit CallGetDf (logger INFO (SyncResult res) (emit CallSync w))"
  have u1: "no_checks w ?w1"
    by (rule no_checksI [of _ _ "[CallSync, Log INFO (SyncResult res), CallGetDf]"]) simp_all
  show ?thesis
  proof (cases "get_library_df ext ck")
    case (Inl e)
    with sync u1 show ?thesis by (simp add: process_papers_try_def Let_def)
  next
    case (Inr df)
    show ?thesis
    proof (cases "df_empty df")
      case True
      with sync Inr no_checks_logger [OF u1] show ?thesis
        by (simp add: process_papers_try_def Let_def)
    next
      case False
      let ?w2 = "logger INFO (FoundPapers (length df)) ?w1"
      obtain r1 w3 where rows: "process_rows ext od df 0 ?w2 = (r1, w3)"
        by (cases "process_rows ext od df 0 ?w2")
      from process_rows_no_checks [of ?w2 ext od df 0] rows
      have "no_checks ?w2 w3" by simp
      from no_checks_trans [OF no_checks_logger [OF u1] this] have u3: "no_checks w w3" .
      from sync Inr False rows u3 no_checks_logger [OF u3] show ?thesis
        by (cases r1) (simp_all add: process_papers_try_def Let_def)
    qed
  qed
qed

lemma process_papers_no_checks: "no_checks w (snd (process_papers ext ck od w))"
proof -
  obtain r w1 where t: "process_papers_try ext ck od w = (r, w1)"
    by (cases "process_papers_try ext ck od w")
  from process_papers_try_no_checks [of w ext ck od] t have u: "no_checks w w1" by simp
  show ?thesis
    using u no_checks_logger [OF u]
    by (cases r) (simp_all add: process_papers_def t)
qed

lemma main_try_no_checks: "no_checks w (snd (main_try a ext w))"
proof -
  let ?od = "if dry_run a then None else obsidian_directory a"
  let ?w1 = "emit CallZoteroInit (logger INFO InitializingZotero w)"
  let ?w2 = "emit CallOpenAlexInit (logger INFO InitializingOpenAlex ?w1)"
  have u1: "no_checks w ?w1"
    by (rule no_checksI [of _ _ "[Log INFO InitializingZotero, CallZoteroInit]"]) simp_all
  have u2: "no_checks w ?w2"
    by (rule no_checksI [of _ _ "[Log INFO InitializingZotero, CallZoteroInit,
          Log INFO InitializingOpenAlex, CallOpenAlexInit]"]) simp_all
  have u3: "no_checks w (snd (process_papers ext (zotero_collection_key a) ?od ?w2))"
    by (rule no_checks_trans [OF u2 process_papers_no_checks])
  show ?thesis
    using u1 u2 u3
    by (cases "zotero_client_init ext (zotero_api_key a) (zotero_library_id a)
                 (zotero_library_type a)"; cases "openalex_client_init ext")
       (simp_all add: main_try_def Let_def)
qed

lemma main_handlers_no_checks:
  "no_checks w (snd (case main_try a ext w of
          (Inl KeyboardInterrupt, w3) \<Rightarrow> sys_exit 0 (logger INFO OperationCancelled w3)
        | (Inl e, w3) \<Rightarrow>
            if is_Exception e then
              (let w4 = logger ERROR (UnexpectedError e) w3
               in sys_exit 1 (if verbose a then emit PrintTraceback w4 else w4))
            else (Inl e, w3)
        | (Inr u', w3) \<Rightarrow> (Inr u', w3)))"
proof -
  obtain r w3 where t: "main_try a ext w = (r, w3)" by (cases "main_try a ext w")
  with main_try_no_checks [of w a ext] have u: "no_checks w w3" by simp
  have tb: "no_checks w (emit PrintTraceback (logger l m w3))" for l m
    by (rule no_checks_emit [OF _ no_checks_logger [OF u]]) simp
  show ?thesis
  proof (cases r)
    case (Inr x)
    with t u show ?thesis by simp
  next
    case (Inl e)
    with t u tb no_checks_logger [OF u] show ?thesis
      by (cases e) (simp_all add: Let_def)
  qed
qed

text \<open>With no directory supplied, no part of the run looks for a path or creates one.\<close>

lemma run_no_checks:
  assumes "\<not> truthy (obsidian_directory a)"
  shows "no_checks w (snd (run a ext w))"
proof -
  obtain r1 w1 where v: "validate_args a w = (r1, w1)" by (cases "validate_args a w")
  from validate_args_untouched [OF assms, of w] v have u1: "no_checks w w1"
    by (simp add: untouched_no_checks)
  show ?thesis
  proof (cases r1)
    case (Inl e)
    with v u1 show ?thesis by (simp add: snd_run main_def)
  next
    case ok1: (Inr u)
    obtain r2 w2 where g: "get_interactive_input a w1 = (r2, w2)"
      by (cases "get_interactive_input a w1")
    from get_interactive_input_untouched [of w1 a] g have "no_checks w1 w2"
      by (simp add: untouched_no_checks)
    from no_checks_trans [OF u1 this] have u2: "no_checks w w2" .
    show ?thesis
    proof (cases r2)
      case (Inl e)
      with v ok1 g u2 show ?thesis by (simp add: snd_run main_def)
    next
      case (Inr a')
      from no_checks_trans [OF u2 main_handlers_no_checks [of w2 a' ext]]
      show ?thesis using v ok1 g Inr by (simp add: snd_run main_def)
    qed
  qed
qed

lemma split_slash_plain: "CHR ''/'' \<notin> set s \<Longrightarrow> split_slash s = [s]"
  by (induction s) auto

lemma target_plain:
  assumes "CHR ''/'' \<notin> set name"
  shows "target d name = Path d @ [name @ ''.md'']"
proof -
  have "CHR ''/'' \<notin> set (name @ ''.md'')" using assms by simp
  then have s: "split_slash (name @ ''.md'') = [name @ ''.md'']" by (rule split_slash_plain)
  have "take 1 (name @ ''.md'') \<noteq> ''/''" using assms by (cases name) auto
  moreover have "name @ ''.md'' \<noteq> ''.''" by (cases name) auto
  ultimately show ?thesis by (simp add: target_def truediv_def Path_def s)
qed

lemma parent_target:
  assumes "CHR ''/'' \<notin> set name"
  shows "parent (target d name) = Path d"
proof -
  have "name @ ''.md'' \<noteq> ''/''" by (cases name) auto
  then have "Path d @ [name @ ''.md''] \<noteq> [''/'']" by (cases "Path d") auto
  then show ?thesis by (simp add: target_plain [OF assms] parent_def)
qed

lemma open_write_nowhere:
  assumes "wf_fs f" and "node_at f (parent p) = None"
  shows "open_write f p text = Inl FileNotFoundError"
proof -
  have "node_at f p \<noteq> Some Dir"
  proof
    assume "node_at f p = Some Dir"
    then have "node_at f p \<noteq> None" by simp
    with assms(1) have "node_at f (parent p) = Some Dir" by (simp add: wf_fs_def)
    with assms(2) show False by simp
  qed
  with assms(2) show ?thesis by (simp add: open_write_def)
qed

text \<open>
  Every record with usable full text fails to be saved when the directory is not there:
  the error is logged, the count stays, the loop reaches the end.
\<close>

lemma process_rows_missing_dir:
  assumes "wf_fs (fs w)" and "\<not> exists (fs w) (Path d)"
    and "\<forall>row \<in> set df. usable_fulltext (snd row) \<longrightarrow>
           (\<exists>t name. map_of (snd row) ''title'' = Some t \<and>
              sanitize_filename ext t = Inr name \<and> CHR ''/'' \<notin> set name)"
  shows "\<exists>evs. process_rows ext (Some d) df n w = (Inr n, w\<lparr>trace := trace w @ evs\<rparr>) \<and>
           filter is_error evs =
             map no_directory_error (filter (\<lambda>row. usable_fulltext (snd row)) df)"
  using assms
proof (induction df arbitrary: w)
  case Nil
  show ?case by (intro exI [of _ "[]"]) simp
next
  case (Cons row rest)
  obtain i paper where row: "row = (i, paper)" by (cases row)
  from Cons.prems(2) have d: "d \<noteq> []" by (rule missing_path_is_named)
  from Cons.prems(2) have gone: "node_at (fs w) (Path d) = None" by (simp add: exists_def)
  have rest: "\<forall>row \<in> set rest. usable_fulltext (snd row) \<longrightarrow>
           (\<exists>t name. map_of (snd row) ''title'' = Some t \<and>
              sanitize_filename ext t = Inr name \<and> CHR ''/'' \<notin> set name)"
    using Cons.prems(3) by simp
  have step: "\<exists>e1. process_paper ext (Some d) row n w = (Inr n, w\<lparr>trace := trace w @ e1\<rparr>) \<and>
      filter is_error e1 = (if usable_fulltext paper then [no_directory_error row] else [])"
  proof (cases "usable_fulltext paper")
    case False
    let ?warn = "Log WARNING (NoFulltextFound (case map_of paper ''title'' of
                   Some t \<Rightarrow> Inr t | None \<Rightarrow> Inl i))"
    have "process_paper ext (Some d) row n w = (Inr n, w\<lparr>trace := trace w @ [?warn]\<rparr>)"
      by (simp add: row process_paper_unusable [OF False] no_fulltext_def logger_def emit_def)
    with False show ?thesis by (intro exI [of _ "[?warn]"]) simp
  next
    case True
    then obtain ft where ft: "map_of paper ''fulltext'' = Some (PStr ft)" "strip ft \<noteq> []"
      by (auto simp: usable_fulltext_iff)
    from Cons.prems(3) True obtain t name where t: "map_of paper ''title'' = Some t"
      and s: "sanitize_filename ext t = Inr name" and plain: "CHR ''/'' \<notin> set name"
      by (auto simp: row)
    have "node_at (fs w) (parent (target d name)) = None"
      by (simp add: parent_target [OF plain] gone)
    from open_write_nowhere [OF Cons.prems(1) this]
    have o: "open_write (fs w) (target d name) (document t ft) = Inl FileNotFoundError" .
    let ?e1 = "[CallSanitize t, FsWrite (target d name) (document t ft),
                Log ERROR (FailedToSave t (OSError FileNotFoundError))]"
    have "process_paper ext (Some d) row n w = (Inr n, w\<lparr>trace := trace w @ ?e1\<rparr>)"
      using d by (simp add: row process_paper_usable [OF ft t] save_paper_oserror [OF s o])
    with True t show ?thesis
      by (intro exI [of _ ?e1]) (simp add: no_directory_error_def row)
  qed
  then obtain e1 where p1: "process_paper ext (Some d) row n w = (Inr n, w\<lparr>trace := trace w @ e1\<rparr>)"
    and f1: "filter is_error e1 = (if usable_fulltext paper then [no_directory_error row] else [])"
    by blast
  let ?w1 = "w\<lparr>trace := trace w @ e1\<rparr>"
  have "wf_fs (fs ?w1)" "\<not> exists (fs ?w1) (Path d)" using Cons.prems(1,2) by simp_all
  from Cons.IH [OF this rest]
  obtain e2 where p2: "process_rows ext (Some d) rest n ?w1 = (Inr n, ?w1\<lparr>trace := trace ?w1 @ e2\<rparr>)"
    and f2: "filter is_error e2 =
               map no_directory_error (filter (\<lambda>row. usable_fulltext (snd row)) rest)"
    by blast
  have "process_rows ext (Some d) (row # rest) n w = (Inr n, w\<lparr>trace := trace w @ (e1 @ e2)\<rparr>)"
    by (simp add: p1 p2)
  moreover have "filter is_error (e1 @ e2) =
      map no_directory_error (filter (\<lambda>row. usable_fulltext (snd row)) (row # rest))"
    by (simp add: f1 f2 row)
  ultimately show ?case by blast
qed

lemma validate_args_nothing:
  assumes "\<not> truthy (obsidian_directory a)"
    and "zotero_library_type a = ''user'' \<or> zotero_library_type a = ''group''"
  shows "validate_args a w = (Inr (), w)"
  using assms by (auto simp: validate_args_def)

lemma prompted_directory_run:
  assumes falsy: "\<not> truthy (obsidian_directory a0)"
    and ty: "zotero_library_type a0 = ''user'' \<or> zotero_library_type a0 = ''group''"
    and gii: "get_interactive_input a0 w0 = (Inr a, w1)"
    and dir: "obsidian_directory a = Some d" and dry: "\<not> dry_run a0"
    and wf: "wf_fs (fs w0)" and gone: "\<not> exists (fs w0) (Path d)"
    and z: "zotero_client_init ext (zotero_api_key a) (zotero_library_id a)
              (zotero_library_type a) = None"
    and o: "openalex_client_init ext = None"
    and s: "sync_zotero_collection ext (zotero_collection_key a) = Inr res"
    and g: "get_library_df ext (zotero_collection_key a) = Inr df"
    and ne: "\<not> df_empty df"
    and rows: "\<forall>row \<in> set df. usable_fulltext (snd row) \<longrightarrow>
           (\<exists>t name. map_of (snd row) ''title'' = Some t \<and>
              sanitize_filename ext t = Inr name \<and> CHR ''/'' \<notin> set name)"
  shows "\<exists>evs. run a0 ext w0 = (Exit 0, w1\<lparr>trace := trace w1 @ evs\<rparr>) \<and> fs w1 = fs w0 \<and>
           filter is_error evs =
             map no_directory_error (filter (\<lambda>row. usable_fulltext (snd row)) df) \<and>
           last evs = Log INFO (SuccessfullyProcessed 0)"
proof -
  from get_interactive_input_untouched [of w0 a0] gii have same: "fs w1 = fs w0"
    by (simp add: untouched_def)
  from get_interactive_input_keeps [OF gii] dry have nodry: "\<not> dry_run a" by simp
  let ?pre = "[Log INFO InitializingZotero, CallZoteroInit, Log INFO InitializingOpenAlex,
               CallOpenAlexInit, CallSync, Log INFO (SyncResult res), CallGetDf,
               Log INFO (FoundPapers (length df))]"
  let ?w2 = "w1\<lparr>trace := trace w1 @ ?pre\<rparr>"
  have "wf_fs (fs ?w2)" "\<not> exists (fs ?w2) (Path d)" using wf gone same by simp_all
  from process_rows_missing_dir [OF this rows, of 0]
  obtain e where run_rows: "process_rows ext (Some d) df 0 ?w2 =
      (Inr 0, ?w2\<lparr>trace := trace ?w2 @ e\<rparr>)"
    and errs: "filter is_error e =
      map no_directory_error (filter (\<lambda>row. usable_fulltext (snd row)) df)"
    by blast
  let ?evs = "?pre @ e @ [Log INFO (SuccessfullyProcessed 0)]"
  have start: "logger INFO (FoundPapers (length df))
      (emit CallGetDf (logger INFO (SyncResult res) (emit CallSync
        (emit CallOpenAlexInit (logger INFO InitializingOpenAlex
          (emit CallZoteroInit (logger INFO InitializingZotero w1))))))) = ?w2"
    by (simp add: logger_def emit_def)
  have "process_papers_try ext (zotero_collection_key a) (Some d)
          (emit CallOpenAlexInit (logger INFO InitializingOpenAlex
            (emit CallZoteroInit (logger INFO InitializingZotero w1)))) =
        (Inr (), w1\<lparr>trace := trace w1 @ ?evs\<rparr>)"
    using s g ne by (simp add: process_papers_try_def Let_def start run_rows)
  then have "main_try a ext w1 = (Inr (), w1\<lparr>trace := trace w1 @ ?evs\<rparr>)"
    using z o nodry dir by (simp add: main_try_def Let_def process_papers_def)
  then have "run a0 ext w0 = (Exit 0, w1\<lparr>trace := trace w1 @ ?evs\<rparr>)"
    using validate_args_nothing [OF falsy ty, of w0] gii
    by (simp add: run_def main_def)
  moreover have "filter is_error ?evs =
      map no_directory_error (filter (\<lambda>row. usable_fulltext (snd row)) df)"
    by (simp add: errs)
  moreover have "last ?evs = Log INFO (SuccessfullyProcessed 0)" by simp
  ultimately show ?thesis using same by blast
qed

text \<open>
  C10. No output directory is supplied by flag or environment, so one may be entered at
  the prompt. Whatever is entered, the whole run makes no existence check, no directory
  check and no \<open>mkdir\<close>; validation, which comes before the prompt, returns without doing
  anything once the library type has passed, so there is no fatal configuration error for
  the directory. If the directory entered does not exist (the file system being a tree,
  the run not a dry run, the clients and the synchronization succeeding, the sanitizer
  returning a plain file name for every title), then the run ends with status 0 and the
  file system it started with: the directory is still missing, and for every record with
  usable full text, in order, there is one logged \<open>FileNotFoundError\<close>; these are all the
  errors logged, and the processed count logged at the end is 0.
\<close>

theorem prompted_directory_is_not_validated:
  assumes "\<not> truthy (obsidian_directory a0)"
  shows "no_checks w0 (snd (run a0 ext w0)) \<and>
         (zotero_library_type a0 = ''user'' \<or> zotero_library_type a0 = ''group'' \<longrightarrow>
            validate_args a0 w0 = (Inr (), w0) \<and>
            (\<forall>a w1 d res df.
               get_interactive_input a0 w0 = (Inr a, w1) \<longrightarrow>
               obsidian_directory a = Some d \<longrightarrow> \<not> dry_run a0 \<longrightarrow>
               wf_fs (fs w0) \<longrightarrow> \<not> exists (fs w0) (Path d) \<longrightarrow>
               zotero_client_init ext (zotero_api_key a) (zotero_library_id a)
                 (zotero_library_type a) = None \<longrightarrow>
               openalex_client_init ext = None \<longrightarrow>
               sync_zotero_collection ext (zotero_collection_key a) = Inr res \<longrightarrow>
               get_library_df ext (zotero_collection_key a) = Inr df \<longrightarrow>
               \<not> df_empty df \<longrightarrow>
               (\<forall>row \<in> set df. usable_fulltext (snd row) \<longrightarrow>
                  (\<exists>t name. map_of (snd row) ''title'' = Some t \<and>
                     sanitize_filename ext t = Inr name \<and> CHR ''/'' \<notin> set name)) \<longrightarrow>
               (\<exists>evs. run a0 ext w0 = (Exit 0, w1\<lparr>trace := trace w1 @ evs\<rparr>) \<and>
                  fs w1 = fs w0 \<and>
                  filter is_error evs =
                    map no_directory_error (filter (\<lambda>row. usable_fulltext (snd row)) df) \<and>
                  last evs = Log INFO (SuccessfullyProcessed 0))))"
proof (intro conjI impI allI)
  show "no_checks w0 (snd (run a0 ext w0))" by (rule run_no_checks [OF assms])
next
  assume ty: "zotero_library_type a0 = ''user'' \<or> zotero_library_type a0 = ''group''"
  show "validate_args a0 w0 = (Inr (), w0)" by (rule validate_args_nothing [OF assms ty])
  fix a :: args and w1 :: world and d res :: string and df :: dataframe
  assume "get_interactive_input a0 w0 = (Inr a, w1)" "obsidian_directory a = Some d"
    "\<not> dry_run a0" "wf_fs (fs w0)" "\<not> exists (fs w0) (Path d)"
    "zotero_client_init ext (zotero_api_key a) (zotero_library_id a)
       (zotero_library_type a) = None"
    "openalex_client_init ext = None"
    "sync_zotero_collection ext (zotero_collection_key a) = Inr res"
    "get_library_df ext (zotero_collection_key a) = Inr df" "\<not> df_empty df"
    "\<forall>row \<in> set df. usable_fulltext (snd row) \<longrightarrow>
       (\<exists>t name. map_of (snd row) ''title'' = Some t \<and>
          sanitize_filename ext t = Inr name \<and> CHR ''/'' \<notin> set name)"
  then show "\<exists>evs. run a0 ext w0 = (Exit 0, w1\<lparr>trace := trace w1 @ evs\<rparr>) \<and>
      fs w1 = fs w0 \<and>
      filter is_error evs =
        map no_directory_error (filter (\<lambda>row. usable_fulltext (snd row)) df) \<and>
      last evs = Log INFO (SuccessfullyProcessed 0)"
    by (rule prompted_directory_run [OF assms ty])
qed

text \<open>
  No directory is supplied and \<open>/tmp/out\<close>, which does not exist, is entered at the
  prompt: the save of Paper A fails and is logged, Paper B is skipped, the run ends with
  status 0 on an empty file system.
\<close>

theorem prompted_directory_is_not_validated_witness:
  "no_checks (sample_world Map.empty [Inr ''/tmp/out''])
     (snd (run (sample_args None False) (sample_extern [(0, paper_a), (1, paper_b)])
             (sample_world Map.empty [Inr ''/tmp/out'']))) \<and>
   (\<exists>evs. run (sample_args None False) (sample_extern [(0, paper_a), (1, paper_b)])
            (sample_world Map.empty [Inr ''/tmp/out'']) =
          (Exit 0, \<lparr>fs = Map.empty, console = [],
                    trace = Prompted AskObsidianDirectory # evs\<rparr>) \<and>
          filter is_error evs =
            [Log ERROR (FailedToSave (PStr ''Paper A'') (OSError FileNotFoundError))] \<and>
          last evs = Log INFO (SuccessfullyProcessed 0))"
proof -
  let ?cfg = "sample_args None False"
  let ?E = "sample_extern [(0, paper_a), (1, paper_b)]"
  let ?w0 = "sample_world Map.empty [Inr ''/tmp/out'']"
  let ?asked = "?cfg\<lparr>obsidian_directory := Some ''/tmp/out''\<rparr>"
  let ?w1 = "\<lparr>fs = Map.empty, console = [], trace = [Prompted AskObsidianDirectory]\<rparr>"
  have falsy: "\<not> truthy (obsidian_directory ?cfg)" by (simp add: sample_args_def)
  have ty: "zotero_library_type ?cfg = ''user'' \<or> zotero_library_type ?cfg = ''group''"
    by (simp add: sample_args_def)
  have gii: "get_interactive_input ?cfg ?w0 = (Inr ?asked, ?w1)"
    by (simp add: run_defs)
  have dir: "obsidian_directory ?asked = Some ''/tmp/out''" by simp
  have dry: "\<not> dry_run ?cfg" by (simp add: sample_args_def)
  have wf: "wf_fs (fs ?w0)"
    by (simp add: wf_fs_def node_at_def sample_world_def parent_def)
  have gone: "\<not> exists (fs ?w0) (Path ''/tmp/out'')"
    by (simp add: exists_def node_at_def sample_world_def Path_def)
  have z: "zotero_client_init ?E (zotero_api_key ?asked) (zotero_library_id ?asked)
             (zotero_library_type ?asked) = None"
    by (simp add: sample_extern_def)
  have o: "openalex_client_init ?E = None" by (simp add: sample_extern_def)
  have s: "sync_zotero_collection ?E (zotero_collection_key ?asked) = Inr ''synced''"
    by (simp add: sample_extern_def)
  have g: "get_library_df ?E (zotero_collection_key ?asked) = Inr [(0, paper_a), (1, paper_b)]"
    by (simp add: sample_extern_def)
  have ne: "\<not> df_empty [(0, paper_a), (1, paper_b)]" by (simp add: paper_a_def)
  have ua: "usable_fulltext paper_a"
    by (simp add: usable_fulltext_def paper_a_def strip_def isspace_def)
  have ub: "\<not> usable_fulltext paper_b"
    by (simp add: usable_fulltext_def paper_b_def strip_def)
  have "map_of paper_a ''title'' = Some (PStr ''Paper A'') \<and>
        sanitize_filename ?E (PStr ''Paper A'') = Inr ''Paper A'' \<and>
        CHR ''/'' \<notin> set ''Paper A''"
    by (simp add: paper_a_def sample_extern_def drop_slashes_def)
  then have rows: "\<forall>row \<in> set [(0, paper_a), (1, paper_b)]. usable_fulltext (snd row) \<longrightarrow>
      (\<exists>t name. map_of (snd row) ''title'' = Some t \<and>
         sanitize_filename ?E t = Inr name \<and> CHR ''/'' \<notin> set name)"
    using ub by auto
  note t = prompted_directory_is_not_validated [OF falsy, of ?w0 ?E]
  from t have nc: "no_checks ?w0 (snd (run ?cfg ?E ?w0))" by (rule conjunct1)
  from t ty gii dir dry wf gone z o s g ne rows
  obtain evs where r: "run ?cfg ?E ?w0 = (Exit 0, ?w1\<lparr>trace := trace ?w1 @ evs\<rparr>)"
    and e: "filter is_error evs = map no_directory_error
              (filter (\<lambda>row. usable_fulltext (snd row)) [(0, paper_a), (1, paper_b)])"
    and l: "last evs = Log INFO (SuccessfullyProcessed 0)"
    by blast
  have keep: "filter (\<lambda>row. usable_fulltext (snd row)) [(0, paper_a), (1, paper_b)] =
      [(0, paper_a)]"
    by (simp add: ua ub)
  have "no_directory_error (0, paper_a) =
      Log ERROR (FailedToSave (PStr ''Paper A'') (OSError FileNotFoundError))"
    by (simp add: no_directory_error_def paper_a_def)
  with e have e': "filter is_error evs =
      [Log ERROR (FailedToSave (PStr ''Paper A'') (OSError FileNotFoundError))]"
    by (simp only: keep list.map)
  from r have r': "run ?cfg ?E ?w0 =
      (Exit 0, \<lparr>fs = Map.empty, console = [], trace = Prompted AskObsidianDirectory # evs\<rparr>)"
    by simp
  from nc r' e' l show ?thesis by blast
qed

end
